theory Spec2Isabelle
  imports Main "HOL-Library.Sublist"
begin

section \<open>The bootstrap validation command of ai-services\<close>

text \<open>
  A shallow embedding of \<^verbatim>\<open>cmd/ai-services/cmd/bootstrap.go\<close>. Go strings are byte
  sequences, so they are modelled as \<^typ>\<open>string\<close> (a list of 8-bit characters); the
  non-ASCII marks of the messages are written as their UTF-8 bytes. A Go \<^verbatim>\<open>error\<close> is
  represented by the text its \<^verbatim>\<open>Error()\<close> method returns, and \<^verbatim>\<open>nil\<close> by \<open>None\<close>.
\<close>

subsection \<open>The library functions the command calls\<close>

type_synonym error = string

text \<open>The marks U+274C and U+2705 in UTF-8.\<close>

definition cross_mark :: string where
  "cross_mark = [CHR 0xE2, CHR 0x9D, CHR 0x8C]"

definition check_mark :: string where
  "check_mark = [CHR 0xE2, CHR 0x9C, CHR 0x85]"

text \<open>
  \<^verbatim>\<open>strings.Index(s, substr)\<close>: the index of the first instance of \<open>substr\<close> in \<open>s\<close>,
  or \<open>-1\<close> when there is none.
\<close>

fun Index :: "string \<Rightarrow> string \<Rightarrow> int" where
  "Index [] substr = (if substr = [] then 0 else - 1)"
| "Index (c # cs) substr =
     (if prefix substr (c # cs) then 0
      else (let r = Index cs substr in if r = - 1 then - 1 else r + 1))"

text \<open>\<^verbatim>\<open>strings.Contains(s, substr)\<close> is \<^verbatim>\<open>Index(s, substr) >= 0\<close>.\<close>

definition Contains :: "string \<Rightarrow> string \<Rightarrow> bool" where
  "Contains s substr = (Index s substr \<ge> 0)"

text \<open>\<^verbatim>\<open>strings.IndexByte(s, c)\<close>: the index of the first byte \<open>c\<close>, or \<open>-1\<close>.\<close>

fun IndexByte :: "string \<Rightarrow> char \<Rightarrow> int" where
  "IndexByte [] b = - 1"
| "IndexByte (c # cs) b =
     (if c = b then 0
      else (let r = IndexByte cs b in if r = - 1 then - 1 else r + 1))"

text \<open>
  \<^verbatim>\<open>strings.Trim(s, cutset)\<close> removes the leading and the trailing characters that are in
  the cutset. The command's cutset is the one ASCII byte of the double quote, for which
  Go trims byte by byte.
\<close>

definition Trim :: "string \<Rightarrow> string \<Rightarrow> string" where
  "Trim s cutset =
     dropWhile (\<lambda>c. c \<in> set cutset) (rev (dropWhile (\<lambda>c. c \<in> set cutset) (rev s)))"

text \<open>
  \<^verbatim>\<open>strings.Split(s, sep)\<close> for a separator of one byte (the command splits at the
  dot): the pieces between the separators, one more than there are separators, so the
  result is never empty and the last case of the second equation does not arise.
\<close>

fun Split :: "string \<Rightarrow> char \<Rightarrow> string list" where
  "Split [] sep = [[]]"
| "Split (c # cs) sep =
     (if c = sep then [] # Split cs sep
      else (case Split cs sep of
              piece # pieces \<Rightarrow> (c # piece) # pieces
            | [] \<Rightarrow> [[c]]))"

text \<open>
  \<^verbatim>\<open>strconv.Atoi(s)\<close> is \<^verbatim>\<open>ParseInt(s, 10, 0)\<close> converted to \<^verbatim>\<open>int\<close>, which has 64 bits
  on the command's target. \<^verbatim>\<open>ParseUint\<close> reads the bytes from the left into an unsigned
  64-bit accumulator (an integer here, with the wrap-around of the addition written
  out): a byte that is no decimal digit ends it with the value 0 and a syntax error, an
  accumulator that would overflow ends it at once with the largest value and a range
  error. \<^verbatim>\<open>ParseInt\<close> takes a leading sign off, gives 0 on a syntax
  error, and on a magnitude outside the signed range the nearest bound with a range error.
\<close>

datatype num_error = ErrSyntax | ErrRange

definition intSize :: nat where
  "intSize = 64"

definition maxUint64 :: int where
  "maxUint64 = 2 ^ 64 - 1"

definition is_digit :: "char \<Rightarrow> bool" where
  "is_digit c = (48 \<le> (of_char c :: int) \<and> (of_char c :: int) \<le> 57)"

definition digit_val :: "char \<Rightarrow> int" where
  "digit_val c = of_char c - 48"

fun ParseUint_loop :: "int \<Rightarrow> string \<Rightarrow> int \<times> num_error option" where
  "ParseUint_loop n [] = (n, None)"
| "ParseUint_loop n (c # cs) =
     (if \<not> is_digit c then (0, Some ErrSyntax)
      else if n \<ge> maxUint64 div 10 + 1 then (2 ^ intSize - 1, Some ErrRange)
      else (let n10 = n * 10;
                n1 = (n10 + digit_val c) mod 2 ^ 64
            in if n1 < n10 \<or> n1 > 2 ^ intSize - 1 then (2 ^ intSize - 1, Some ErrRange)
               else ParseUint_loop n1 cs))"

definition ParseUint :: "string \<Rightarrow> int \<times> num_error option" where
  "ParseUint s = (if s = [] then (0, Some ErrSyntax) else ParseUint_loop 0 s)"

definition ParseInt :: "string \<Rightarrow> int \<times> num_error option" where
  "ParseInt s0 =
     (if s0 = [] then (0, Some ErrSyntax)
      else
        (let neg = (hd s0 = CHR ''-'');
             s = (if hd s0 = CHR ''+'' \<or> hd s0 = CHR ''-'' then tl s0 else s0);
             (un, err) = ParseUint s;
             cutoff = 2 ^ (intSize - 1)
         in if err = Some ErrSyntax then (0, err)
            else if \<not> neg \<and> un \<ge> cutoff then (cutoff - 1, Some ErrRange)
            else if neg \<and> un > cutoff then (- cutoff, Some ErrRange)
            else (if neg then - un else un, None)))"

definition Atoi :: "string \<Rightarrow> int \<times> num_error option" where
  "Atoi s = ParseInt s"

text \<open>The verb \<^verbatim>\<open>%d\<close> of \<^verbatim>\<open>fmt\<close>: a Go \<^verbatim>\<open>int\<close> in decimal.\<close>

fun digits10 :: "nat \<Rightarrow> string" where
  "digits10 n =
     (if n < 10 then [''0123456789'' ! n]
      else digits10 (n div 10) @ [''0123456789'' ! (n mod 10)])"

declare digits10.simps [simp del]

definition FormatInt :: "int \<Rightarrow> string" where
  "FormatInt i = (if i < 0 then CHR ''-'' # digits10 (nat (- i)) else digits10 (nat i))"

subsection \<open>The host and the trace of a run\<close>

text \<open>
  \<^verbatim>\<open>os.ReadFile\<close> fails with a \<^verbatim>\<open>*PathError\<close>, whose text is the operation, the path and
  the cause. The file system of the host gives, for a path, either the operation that
  failed with its cause or the content.
\<close>

datatype path_op = OpOpen | OpRead

fun path_op_name :: "path_op \<Rightarrow> string" where
  "path_op_name OpOpen = ''open''"
| "path_op_name OpRead = ''read''"

definition PathError :: "path_op \<Rightarrow> string \<Rightarrow> string \<Rightarrow> error" where
  "PathError operation path cause = path_op_name operation @ '' '' @ path @ '': '' @ cause"

text \<open>
  Modelled from the spec: the container-runtime validator \<^verbatim>\<open>validators.Podman\<close> is not
  among the sources. The spec describes it as a collaborator returning version
  information and an error, of which the command uses the success or failure and the
  error text only; its outcome on the host is the field \<open>podman\<close>.
\<close>

record env =
  euid :: int
  fs :: "string \<Rightarrow> (path_op \<times> string) + string"
  GOARCH :: string
  podman :: "error option"

text \<open>
  What a run does to the outside is recorded in order: the calls of the logger, with
  level, message and fields, and the calls that inspect the host.
\<close>

datatype level = Debug | Info | Error

datatype field = Zap_Int string int | Zap_String string string | Zap_Error error

datatype event =
    Log level string "field list"
  | Call_Geteuid
  | Call_ReadFile string
  | Call_Podman

type_synonym trace = "event list"

definition ReadFile :: "env \<Rightarrow> string \<Rightarrow> trace \<Rightarrow> (error + string) \<times> trace" where
  "ReadFile e name t =
     (case fs e name of
        Inl (operation, cause) \<Rightarrow> (Inl (PathError operation name cause), t @ [Call_ReadFile name])
      | Inr data \<Rightarrow> (Inr data, t @ [Call_ReadFile name]))"

definition Podman :: "env \<Rightarrow> trace \<Rightarrow> error option \<times> trace" where
  "Podman e t = (podman e, t @ [Call_Podman])"

subsection \<open>The checks\<close>

definition root_required :: error where
  "root_required = ''root privileges are required to run this command''"

definition rootCheck :: "env \<Rightarrow> trace \<Rightarrow> error option \<times> trace" where
  "rootCheck e t0 =
     (let t1 = t0 @ [Call_Geteuid]
      in if euid e = 0 then (None, t1 @ [Log Debug (check_mark @ '' Current user is root.'') []])
         else (Some root_required,
               t1 @ [Log Error (cross_mark @ '' Current user is not root.'') [],
                     Log Debug ''Effective User ID'' [Zap_Int ''euid'' (euid e)]]))"

definition isRHEL :: "string \<Rightarrow> bool" where
  \<open>isRHEL osInfo =
     (Contains osInfo ''Red Hat Enterprise Linux'' \<or>
      Contains osInfo ''ID="rhel"'' \<or>
      Contains osInfo ''ID=rhel'')\<close>

definition unsupported_os :: error where
  "unsupported_os = cross_mark @ '' unsupported operating system: only RHEL is supported''"

definition unknown_version :: error where
  "unknown_version = ''unable to determine OS version''"

definition unsupported_version :: "string \<Rightarrow> error" where
  "unsupported_version version =
     cross_mark @ '' unsupported RHEL version: '' @ version @ ''. Minimum required version is 9.6''"

text \<open>Lines 178 to 182: the text after the field name up to the end of the line, unquoted.\<close>

definition version_of :: "string \<Rightarrow> int \<Rightarrow> string" where
  \<open>version_of osInfo idx =
     (let rest = drop (nat (idx + int (length ''VERSION_ID=''))) osInfo;
          end = IndexByte rest CHR ''\<newline>'';
          rest = (if end \<noteq> - 1 then take (nat end) rest else rest)
      in Trim rest ''"'')\<close>

text \<open>
  Lines 184 to 189. The errors of \<^verbatim>\<open>Atoi\<close> are dropped and its value is kept.
  \<open>parts ! 0\<close> is in range, since \<open>Split\<close> gives at least one piece.
\<close>

definition major_of :: "string \<Rightarrow> int" where
  "major_of version = (let parts = Split version CHR ''.'' in fst (Atoi (parts ! 0)))"

definition minor_of :: "string \<Rightarrow> int" where
  "minor_of version =
     (let parts = Split version CHR ''.''
      in if length parts > 1 then fst (Atoi (parts ! 1)) else 0)"

definition validateOS :: "env \<Rightarrow> trace \<Rightarrow> error option \<times> trace" where
  "validateOS e t0 =
     (let t1 = t0 @ [Log Debug ''Validating operating system...'' []];
          (r, t2) = ReadFile e ''/etc/os-release'' t1
      in case r of
           Inl err \<Rightarrow> (Some err, t2)
         | Inr osInfo \<Rightarrow>
             if \<not> isRHEL osInfo then (Some unsupported_os, t2)
             else
               (let idx = Index osInfo ''VERSION_ID=''
                in if idx = - 1 then (Some unknown_version, t2)
                   else
                     (let version = version_of osInfo idx;
                          major = major_of version;
                          minor = minor_of version
                      in if major < 9 \<or> (major = 9 \<and> minor < 6)
                         then (Some (unsupported_version version), t2)
                         else (None, t2 @ [Log Debug (check_mark @ '' Operating system is RHEL'')
                                             [Zap_String ''version'' version]]))))"

definition validateRHNRegistration :: "trace \<Rightarrow> error option \<times> trace" where
  "validateRHNRegistration t = (None, t @ [Log Debug ''Validating RHN registration...'' []])"

definition validateLTCRPMRepo :: "trace \<Rightarrow> error option \<times> trace" where
  "validateLTCRPMRepo t = (None, t @ [Log Debug ''Validating LTC RPM repository...'' []])"

definition unsupported_arch :: "string \<Rightarrow> error" where
  "unsupported_arch arch =
     cross_mark @ '' unsupported architecture: '' @ arch @
       ''. IBM Power architecture (ppc64le) is required''"

definition unsupported_power :: error where
  "unsupported_power = cross_mark @ '' unsupported IBM Power version: POWER11 is required''"

definition validatePowerVersion :: "env \<Rightarrow> trace \<Rightarrow> error option \<times> trace" where
  "validatePowerVersion e t0 =
     (let t1 = t0 @ [Log Debug ''Validating IBM Power version...'' []]
      in if GOARCH e \<noteq> ''ppc64le'' then (Some (unsupported_arch (GOARCH e)), t1)
         else
           (let (r, t2) = ReadFile e ''/proc/cpuinfo'' t1
            in case r of
                 Inr data \<Rightarrow>
                   if Contains data ''POWER11''
                   then (None, t2 @ [Log Debug
                           (check_mark @ '' System is running on IBM POWER11 architecture'') []])
                   else (Some unsupported_power, t2)
               | Inl err \<Rightarrow> (Some unsupported_power, t2)))"

definition validateRHAIISLicense :: "trace \<Rightarrow> error option \<times> trace" where
  "validateRHAIISLicense t = (None, t @ [Log Debug ''Validating RHAIIS license...'' []])"

subsection \<open>The command\<close>

text \<open>\<^verbatim>\<open>validationErrors = append(validationErrors, err)\<close> when \<open>err\<close> is not \<^verbatim>\<open>nil\<close>.\<close>

fun record_failure :: "error list \<Rightarrow> error option \<Rightarrow> error list" where
  "record_failure validationErrors None = validationErrors"
| "record_failure validationErrors (Some err) = validationErrors @ [err]"

text \<open>Lines 91 to 122: the six checks after the root check.\<close>

definition run_checks :: "env \<Rightarrow> trace \<Rightarrow> error list \<times> trace" where
  "run_checks e t1 =
     (let validationErrors = [];
          (err, t2) = validateOS e t1;
          validationErrors = record_failure validationErrors err;
          (err, t3) = validateRHNRegistration t2;
          validationErrors = record_failure validationErrors err;
          (err, t4) = validateLTCRPMRepo t3;
          validationErrors = record_failure validationErrors err;
          (err, t5) = Podman e t4;
          (validationErrors, t6) =
            (case err of
               Some perr \<Rightarrow>
                 (validationErrors @ [cross_mark @ '' podman validation failed: '' @ perr],
                  t5 @ [Log Debug (cross_mark @ '' Podman validation failed'') [Zap_Error perr]])
             | None \<Rightarrow>
                 (validationErrors,
                  t5 @ [Log Debug (check_mark @ '' Podman validation passed'') []]));
          (err, t7) = validatePowerVersion e t6;
          validationErrors = record_failure validationErrors err;
          (err, t8) = validateRHAIISLicense t7;
          validationErrors = record_failure validationErrors err
      in (validationErrors, t8))"

text \<open>Lines 126 to 128: one line of the logger for each failure, numbered from 1.\<close>

fun log_failures :: "nat \<Rightarrow> error list \<Rightarrow> trace \<Rightarrow> trace" where
  "log_failures i [] t = t"
| "log_failures i (err # errs) t =
     log_failures (i + 1) errs
       (t @ [Log Error (''  '' @ FormatInt (int i + 1) @ ''. '' @ err) []])"

text \<open>Lines 124 to 136.\<close>

definition report :: "error list \<Rightarrow> trace \<Rightarrow> error option \<times> trace" where
  "report validationErrors t =
     (if length validationErrors > 0
      then (Some (FormatInt (int (length validationErrors)) @ '' validation check(s) failed''),
            log_failures 0 validationErrors
              (t @ [Log Error (cross_mark @ '' Validation failed with errors:'') []]))
      else (None, t @ [Log Info (check_mark @ '' All validations passed'') []]))"

text \<open>The function \<^verbatim>\<open>RunE\<close> of the validate command.\<close>

definition RunE :: "env \<Rightarrow> trace \<Rightarrow> error option \<times> trace" where
  "RunE e t0 =
     (let t1 = t0 @ [Log Info ''Running bootstrap validation...'' []];
          (err, t2) = rootCheck e t1
      in case err of
           Some rerr \<Rightarrow> (Some rerr, t2)
         | None \<Rightarrow> (let (validationErrors, t3) = run_checks e t2 in report validationErrors t3))"

subsection \<open>Sample hosts\<close>

text \<open>
  A host with the given user id, release file, architecture, CPU-info file and outcome of
  the container-runtime validator, and a release file of the supported distribution with
  the given version.
\<close>

definition host :: "int \<Rightarrow> (path_op \<times> string) + string \<Rightarrow> string \<Rightarrow> (path_op \<times> string) + string \<Rightarrow> error option \<Rightarrow> env" where
  "host uid release arch cpuinfo runtime =
     \<lparr>euid = uid,
      fs = (\<lambda>name. if name = ''/etc/os-release'' then release
                  else if name = ''/proc/cpuinfo'' then cpuinfo
                  else Inl (OpOpen, ''no such file or directory'')),
      GOARCH = arch, podman = runtime\<rparr>"

definition release :: "string \<Rightarrow> string" where
  \<open>release v = ''ID="rhel"\<newline>VERSION_ID="'' @ v @ ''"\<newline>''\<close>


section \<open>Properties\<close>

subsection \<open>The library functions\<close>

text \<open>\<open>Index\<close> finds a substring exactly when there is one.\<close>

lemma Index_ge: "- 1 \<le> Index s substr"
  by (induction s) (auto simp: Let_def)

lemma Index_none_iff: "Index s substr = - 1 \<longleftrightarrow> \<not> sublist substr s"
proof (induction s)
  case Nil
  show ?case by simp
next
  case (Cons c cs)
  have "Index cs substr + 1 \<noteq> - 1"
    using Index_ge [of cs substr] by arith
  with Cons show ?case
    by (auto simp: Let_def sublist_Cons_right)
qed

lemma Contains_iff_sublist: "Contains s substr \<longleftrightarrow> sublist substr s"
  using Index_ge [of s substr] Index_none_iff [of s substr]
  by (auto simp: Contains_def)

text \<open>\<open>Split\<close> gives one piece more than there are separators, and the pieces make up the text.\<close>

lemma Split_not_Nil: "Split s sep \<noteq> []"
  by (induction s) (auto split: list.splits)

lemma length_Split: "length (Split s sep) = Suc (length (filter (\<lambda>c. c = sep) s))"
proof (induction s)
  case Nil
  show ?case by simp
next
  case (Cons c cs)
  then show ?case
    using Split_not_Nil [of cs sep] by (cases "Split cs sep") auto
qed

lemma concat_Split: "concat (map (\<lambda>p. sep # p) (Split s sep)) = sep # s"
proof (induction s)
  case Nil
  show ?case by simp
next
  case (Cons c cs)
  then show ?case
    using Split_not_Nil [of cs sep] by (cases "Split cs sep") auto
qed

subsection \<open>The checks extend the trace and do not read it\<close>

lemma ReadFile_frame: "ReadFile e name t = (fst (ReadFile e name []), t @ snd (ReadFile e name []))"
  by (simp add: ReadFile_def split: sum.splits prod.splits)

lemma rootCheck_frame: "rootCheck e t = (fst (rootCheck e []), t @ snd (rootCheck e []))"
  by (simp add: rootCheck_def Let_def)

lemma validateOS_frame: "validateOS e t = (fst (validateOS e []), t @ snd (validateOS e []))"
  by (simp add: validateOS_def ReadFile_def Let_def split: sum.splits prod.splits)

lemma validatePowerVersion_frame:
  "validatePowerVersion e t = (fst (validatePowerVersion e []), t @ snd (validatePowerVersion e []))"
  by (simp add: validatePowerVersion_def ReadFile_def Let_def split: sum.splits prod.splits)


lemma host_simps [simp]:
  "euid (host uid rel arch cpu rt) = uid"
  "fs (host uid rel arch cpu rt) ''/etc/os-release'' = rel"
  "fs (host uid rel arch cpu rt) ''/proc/cpuinfo'' = cpu"
  "GOARCH (host uid rel arch cpu rt) = arch"
  "podman (host uid rel arch cpu rt) = rt"
  by (simp_all add: host_def)

lemma run_checks_eq:
  "run_checks e t =
     (List.map_filter id
        [fst (validateOS e []),
         fst (validateRHNRegistration []),
         fst (validateLTCRPMRepo []),
         map_option (\<lambda>perr. cross_mark @ '' podman validation failed: '' @ perr) (podman e),
         fst (validatePowerVersion e []),
         fst (validateRHAIISLicense [])],
      t @ snd (validateOS e []) @ snd (validateRHNRegistration []) @ snd (validateLTCRPMRepo []) @
        [Call_Podman,
         case podman e of
           Some perr \<Rightarrow> Log Debug (cross_mark @ '' Podman validation failed'') [Zap_Error perr]
         | None \<Rightarrow> Log Debug (check_mark @ '' Podman validation passed'') []] @
        snd (validatePowerVersion e []) @ snd (validateRHAIISLicense []))"
proof -
  obtain r2 l2 where os: "validateOS e [] = (r2, l2)"
    by fastforce
  obtain r6 l6 where pw: "validatePowerVersion e [] = (r6, l6)"
    by fastforce
  have os': "validateOS e u = (r2, u @ l2)" for u
    by (subst validateOS_frame) (simp add: os)
  have pw': "validatePowerVersion e u = (r6, u @ l6)" for u
    by (subst validatePowerVersion_frame) (simp add: pw)
  show ?thesis
    unfolding run_checks_def
    by (cases r2; cases r6; cases "podman e")
       (simp_all add: os' pw' Podman_def validateRHNRegistration_def validateLTCRPMRepo_def
          validateRHAIISLicense_def map_filter_simps)
qed


subsection \<open>The placeholder checks\<close>

text \<open>
  Claim C7: the registration check, the package-repository check and the license check
  return no error on every host and from every state; all each of them does is to call
  the logger once at debug level. So the failures of a run are those of the other three
  checks only.
\<close>

theorem stub_checks_succeed:
  "validateRHNRegistration t = (None, t @ [Log Debug ''Validating RHN registration...'' []]) \<and>
   validateLTCRPMRepo t = (None, t @ [Log Debug ''Validating LTC RPM repository...'' []]) \<and>
   validateRHAIISLicense t = (None, t @ [Log Debug ''Validating RHAIIS license...'' []]) \<and>
   fst (run_checks e t) =
     List.map_filter id
       [fst (validateOS e []),
        map_option (\<lambda>perr. cross_mark @ '' podman validation failed: '' @ perr) (podman e),
        fst (validatePowerVersion e [])]"
proof -
  have "fst (run_checks e t) =
     List.map_filter id
       [fst (validateOS e []),
        map_option (\<lambda>perr. cross_mark @ '' podman validation failed: '' @ perr) (podman e),
        fst (validatePowerVersion e [])]"
    by (cases "fst (validateOS e [])"; cases "podman e"; cases "fst (validatePowerVersion e [])")
       (simp_all add: run_checks_eq map_filter_simps validateRHNRegistration_def
          validateLTCRPMRepo_def validateRHAIISLicense_def)
  then show ?thesis
    by (simp add: validateRHNRegistration_def validateLTCRPMRepo_def validateRHAIISLicense_def)
qed

subsection \<open>The root check\<close>

lemma rootCheck_root:
  "euid e = 0 \<Longrightarrow>
     rootCheck e t = (None, t @ [Call_Geteuid, Log Debug (check_mark @ '' Current user is root.'') []])"
  by (simp add: rootCheck_def)

lemma rootCheck_not_root:
  "euid e \<noteq> 0 \<Longrightarrow>
     rootCheck e t =
       (Some root_required,
        t @ [Call_Geteuid, Log Error (cross_mark @ '' Current user is not root.'') [],
             Log Debug ''Effective User ID'' [Zap_Int ''euid'' (euid e)]])"
  by (simp add: rootCheck_def)

lemma RunE_root:
  "euid e = 0 \<Longrightarrow>
     RunE e t =
       report (fst (run_checks e []))
         (t @ [Log Info ''Running bootstrap validation...'' [], Call_Geteuid,
               Log Debug (check_mark @ '' Current user is root.'') []] @ snd (run_checks e []))"
  by (simp add: RunE_def rootCheck_root run_checks_eq [of e "_ @ _"] run_checks_eq [of e "[]"])

lemma validateOS_starts:
  "\<exists>rest. snd (validateOS e []) = Log Debug ''Validating operating system...'' [] # rest"
  by (simp add: validateOS_def ReadFile_def Let_def split: sum.splits prod.splits)

lemma log_failures_eq:
  "log_failures i errs t =
     t @ map (\<lambda>k. Log Error (''  '' @ FormatInt (int (i + k) + 1) @ ''. '' @ errs ! k) [])
           [0..<length errs]"
proof (induction errs arbitrary: i t)
  case Nil
  show ?case by simp
next
  case (Cons err errs)
  show ?case
    by (simp add: Cons.IH map_upt_Suc del: upt_Suc)
qed

lemma snd_report: "\<exists>rest. snd (report errs t) = t @ rest"
  by (simp add: report_def log_failures_eq)

text \<open>
  Claim C2: when the effective user id is not 0, the run returns the privilege error at
  once: beyond the opening line of the logger and the root check's own events the trace
  holds nothing, so none of the six later checks is invoked. When it is 0, the root
  check returns no error and the run goes on with the six checks and their report.
\<close>

theorem root_check_gates_run:
  "(euid e \<noteq> 0 \<longrightarrow>
      RunE e t =
        (Some ''root privileges are required to run this command'',
         t @ [Log Info ''Running bootstrap validation...'' [], Call_Geteuid,
              Log Error (cross_mark @ '' Current user is not root.'') [],
              Log Debug ''Effective User ID'' [Zap_Int ''euid'' (euid e)]])) \<and>
   (euid e = 0 \<longrightarrow>
      fst (rootCheck e t) = None \<and>
      RunE e t =
        report (fst (run_checks e []))
          (t @ [Log Info ''Running bootstrap validation...'' [], Call_Geteuid,
                Log Debug (check_mark @ '' Current user is root.'') []] @ snd (run_checks e [])) \<and>
      Log Debug ''Validating operating system...'' [] \<in> set (snd (RunE e t)))"
proof (intro conjI impI)
  assume "euid e \<noteq> 0"
  then show "RunE e t =
        (Some ''root privileges are required to run this command'',
         t @ [Log Info ''Running bootstrap validation...'' [], Call_Geteuid,
              Log Error (cross_mark @ '' Current user is not root.'') [],
              Log Debug ''Effective User ID'' [Zap_Int ''euid'' (euid e)]])"
    by (simp add: RunE_def rootCheck_not_root root_required_def)
next
  assume root: "euid e = 0"
  then show "fst (rootCheck e t) = None"
    by (simp add: rootCheck_root)
  show run: "RunE e t =
        report (fst (run_checks e []))
          (t @ [Log Info ''Running bootstrap validation...'' [], Call_Geteuid,
                Log Debug (check_mark @ '' Current user is root.'') []] @ snd (run_checks e []))"
    using root by (rule RunE_root)
  obtain rest where "snd (validateOS e []) = Log Debug ''Validating operating system...'' [] # rest"
    using validateOS_starts by blast
  then have "Log Debug ''Validating operating system...'' [] \<in> set (snd (run_checks e []))"
    by (simp add: run_checks_eq [of e "[]"])
  moreover obtain more where "snd (RunE e t) =
      (t @ [Log Info ''Running bootstrap validation...'' [], Call_Geteuid,
            Log Debug (check_mark @ '' Current user is root.'') []] @ snd (run_checks e [])) @ more"
    unfolding run using snd_report by blast
  ultimately show "Log Debug ''Validating operating system...'' [] \<in> set (snd (RunE e t))"
    by simp
qed

theorem root_check_gates_run_witness:
  "euid (host 1000 (Inr (release ''9.6'')) ''ppc64le'' (Inr ''POWER11'') None) \<noteq> 0 \<and>
   RunE (host 1000 (Inr (release ''9.6'')) ''ppc64le'' (Inr ''POWER11'') None) [] =
     (Some ''root privileges are required to run this command'',
      [Log Info ''Running bootstrap validation...'' [], Call_Geteuid,
       Log Error (cross_mark @ '' Current user is not root.'') [],
       Log Debug ''Effective User ID'' [Zap_Int ''euid'' 1000]]) \<and>
   euid (host 0 (Inr (release ''9.6'')) ''ppc64le'' (Inr ''POWER11'') None) = 0 \<and>
   fst (rootCheck (host 0 (Inr (release ''9.6'')) ''ppc64le'' (Inr ''POWER11'') None) []) = None \<and>
   Log Debug ''Validating operating system...'' []
     \<in> set (snd (RunE (host 0 (Inr (release ''9.6'')) ''ppc64le'' (Inr ''POWER11'') None) []))"
  using root_check_gates_run [of "host 1000 (Inr (release ''9.6'')) ''ppc64le'' (Inr ''POWER11'') None" "[]"]
    root_check_gates_run [of "host 0 (Inr (release ''9.6'')) ''ppc64le'' (Inr ''POWER11'') None" "[]"]
  by auto

subsection \<open>The distribution and the version field\<close>

lemma validateOS_result:
  "fst (validateOS e t) =
     (case fs e ''/etc/os-release'' of
        Inl (operation, cause) \<Rightarrow> Some (PathError operation ''/etc/os-release'' cause)
      | Inr osInfo \<Rightarrow>
          if \<not> isRHEL osInfo then Some unsupported_os
          else if Index osInfo ''VERSION_ID='' = - 1 then Some unknown_version
          else if major_of (version_of osInfo (Index osInfo ''VERSION_ID='')) < 9 \<or>
                  major_of (version_of osInfo (Index osInfo ''VERSION_ID='')) = 9 \<and>
                  minor_of (version_of osInfo (Index osInfo ''VERSION_ID='')) < 6
          then Some (unsupported_version (version_of osInfo (Index osInfo ''VERSION_ID='')))
          else None)"
  by (simp add: validateOS_def ReadFile_def Let_def split: sum.splits prod.splits)

lemma messages_distinct:
  "unknown_version \<noteq> unsupported_os"
  "unsupported_version v \<noteq> unsupported_os"
  "unknown_version \<noteq> unsupported_version v"
  "unsupported_arch a \<noteq> unsupported_power"
  by (simp_all add: unknown_version_def unsupported_os_def unsupported_version_def
        unsupported_arch_def unsupported_power_def cross_mark_def)

text \<open>
  Claim C6: for a readable release file, the distribution is taken as the supported one
  exactly when the content has one of the three markers as a substring, and the check
  fails with the unsupported-operating-system message exactly when it has none.
\<close>

theorem distribution_detection:
  assumes "fs e ''/etc/os-release'' = Inr osInfo"
  shows \<open>(isRHEL osInfo \<longleftrightarrow>
            sublist ''Red Hat Enterprise Linux'' osInfo \<or> sublist ''ID="rhel"'' osInfo \<or>
            sublist ''ID=rhel'' osInfo) \<and>
         (fst (validateOS e t) =
            Some (cross_mark @ '' unsupported operating system: only RHEL is supported'') \<longleftrightarrow>
          \<not> (sublist ''Red Hat Enterprise Linux'' osInfo \<or> sublist ''ID="rhel"'' osInfo \<or>
             sublist ''ID=rhel'' osInfo))\<close>
proof -
  have rhel: \<open>isRHEL osInfo \<longleftrightarrow>
      sublist ''Red Hat Enterprise Linux'' osInfo \<or> sublist ''ID="rhel"'' osInfo \<or>
      sublist ''ID=rhel'' osInfo\<close>
    by (simp add: isRHEL_def Contains_iff_sublist)
  have "fst (validateOS e t) = Some unsupported_os \<longleftrightarrow> \<not> isRHEL osInfo"
    by (simp add: validateOS_result assms messages_distinct messages_distinct [symmetric])
  with rhel show ?thesis
    by (simp add: unsupported_os_def)
qed

theorem distribution_detection_witness:
  \<open>fs (host 0 (Inr ''ID=ubuntu'') ''ppc64le'' (Inr ''POWER11'') None) ''/etc/os-release'' =
     Inr ''ID=ubuntu'' \<and>
   \<not> isRHEL ''ID=ubuntu'' \<and>
   fst (validateOS (host 0 (Inr ''ID=ubuntu'') ''ppc64le'' (Inr ''POWER11'') None) []) =
     Some (cross_mark @ '' unsupported operating system: only RHEL is supported'')\<close>
  using distribution_detection
     [of "host 0 (Inr ''ID=ubuntu'') ''ppc64le'' (Inr ''POWER11'') None" "''ID=ubuntu''" "[]"]
  by (simp add: isRHEL_def Contains_def)

text \<open>
  Claim C8: a readable release file of the supported distribution without the field
  \<^verbatim>\<open>VERSION_ID=\<close> fails with the message that the version cannot be determined, which is
  neither the message for another distribution nor the one for a version below 9.6.
\<close>

theorem missing_version_field:
  assumes "fs e ''/etc/os-release'' = Inr osInfo"
    and "isRHEL osInfo"
    and "\<not> sublist ''VERSION_ID='' osInfo"
  shows "fst (validateOS e t) = Some ''unable to determine OS version'' \<and>
         ''unable to determine OS version'' \<noteq> unsupported_os \<and>
         (\<forall>version. ''unable to determine OS version'' \<noteq> unsupported_version version)"
  using assms messages_distinct(1,3) [unfolded unknown_version_def]
  by (simp add: validateOS_result Index_none_iff unknown_version_def)

theorem missing_version_field_witness:
  \<open>fs (host 0 (Inr ''ID="rhel"'') ''ppc64le'' (Inr ''POWER11'') None) ''/etc/os-release'' =
     Inr ''ID="rhel"'' \<and>
   isRHEL ''ID="rhel"'' \<and>
   Index ''ID="rhel"'' ''VERSION_ID='' = - 1 \<and>
   fst (validateOS (host 0 (Inr ''ID="rhel"'') ''ppc64le'' (Inr ''POWER11'') None) []) =
     Some ''unable to determine OS version''\<close>
  using missing_version_field
     [of "host 0 (Inr ''ID=\"rhel\"'') ''ppc64le'' (Inr ''POWER11'') None"
         "''ID=\"rhel\"''" "[]"]
  by (simp add: isRHEL_def Contains_def Index_none_iff [symmetric])

subsection \<open>The architecture and the processor generation\<close>

lemma validatePowerVersion_result:
  "fst (validatePowerVersion e t) =
     (if GOARCH e \<noteq> ''ppc64le'' then Some (unsupported_arch (GOARCH e))
      else case fs e ''/proc/cpuinfo'' of
             Inl failure \<Rightarrow> Some unsupported_power
           | Inr data \<Rightarrow> if Contains data ''POWER11'' then None else Some unsupported_power)"
  by (simp add: validatePowerVersion_def ReadFile_def Let_def split: sum.splits prod.splits)

lemma run_checks_last:
  "last (snd (run_checks e t)) = Log Debug ''Validating RHAIIS license...'' []"
  by (simp add: run_checks_eq validateRHAIISLicense_def)

lemma power_failure_recorded:
  "fst (validatePowerVersion e t) = Some err \<Longrightarrow> err \<in> set (fst (run_checks e u))"
  by (subst (asm) validatePowerVersion_frame)
     (simp add: run_checks_eq map_filter_simps validateRHNRegistration_def
        validateLTCRPMRepo_def validateRHAIISLicense_def split: option.splits)

text \<open>
  Claim C5: the check of the architecture and the processor passes exactly when the
  architecture is \<^verbatim>\<open>ppc64le\<close> and the CPU-info file is readable and contains \<^verbatim>\<open>POWER11\<close>.
  On another architecture it fails with a message that names the architecture; on
  \<^verbatim>\<open>ppc64le\<close> without a readable file that contains \<^verbatim>\<open>POWER11\<close> it fails with another
  message. Whichever failure it is, the run records it and goes on to the license check.
\<close>

theorem power_version_check:
  "(fst (validatePowerVersion e t) = None \<longleftrightarrow>
      GOARCH e = ''ppc64le'' \<and>
      (\<exists>data. fs e ''/proc/cpuinfo'' = Inr data \<and> sublist ''POWER11'' data)) \<and>
   (GOARCH e \<noteq> ''ppc64le'' \<longrightarrow>
      fst (validatePowerVersion e t) =
        Some (cross_mark @ '' unsupported architecture: '' @ GOARCH e @
              ''. IBM Power architecture (ppc64le) is required'')) \<and>
   (GOARCH e = ''ppc64le'' \<and>
    \<not> (\<exists>data. fs e ''/proc/cpuinfo'' = Inr data \<and> sublist ''POWER11'' data) \<longrightarrow>
      fst (validatePowerVersion e t) =
        Some (cross_mark @ '' unsupported IBM Power version: POWER11 is required'')) \<and>
   (\<forall>arch. cross_mark @ '' unsupported architecture: '' @ arch @
             ''. IBM Power architecture (ppc64le) is required'' \<noteq>
           cross_mark @ '' unsupported IBM Power version: POWER11 is required'') \<and>
   (\<forall>err. fst (validatePowerVersion e t) = Some err \<longrightarrow>
      err \<in> set (fst (run_checks e u)) \<and>
      last (snd (run_checks e u)) = Log Debug ''Validating RHAIIS license...'' [])"
proof (intro conjI allI impI)
  show "fst (validatePowerVersion e t) = None \<longleftrightarrow>
      GOARCH e = ''ppc64le'' \<and>
      (\<exists>data. fs e ''/proc/cpuinfo'' = Inr data \<and> sublist ''POWER11'' data)"
    by (simp add: validatePowerVersion_result Contains_iff_sublist split: sum.splits)
next
  assume "GOARCH e \<noteq> ''ppc64le''"
  then show "fst (validatePowerVersion e t) =
        Some (cross_mark @ '' unsupported architecture: '' @ GOARCH e @
              ''. IBM Power architecture (ppc64le) is required'')"
    by (simp add: validatePowerVersion_result unsupported_arch_def)
next
  assume "GOARCH e = ''ppc64le'' \<and>
    \<not> (\<exists>data. fs e ''/proc/cpuinfo'' = Inr data \<and> sublist ''POWER11'' data)"
  then show "fst (validatePowerVersion e t) =
        Some (cross_mark @ '' unsupported IBM Power version: POWER11 is required'')"
    by (simp add: validatePowerVersion_result Contains_iff_sublist unsupported_power_def
          split: sum.splits)
next
  fix arch
  show "cross_mark @ '' unsupported architecture: '' @ arch @
             ''. IBM Power architecture (ppc64le) is required'' \<noteq>
           cross_mark @ '' unsupported IBM Power version: POWER11 is required''"
    by simp
next
  fix err
  assume "fst (validatePowerVersion e t) = Some err"
  then show "err \<in> set (fst (run_checks e u))"
    by (rule power_failure_recorded)
next
  show "last (snd (run_checks e u)) = Log Debug ''Validating RHAIIS license...'' []"
    by (rule run_checks_last)
qed

theorem power_version_check_witness:
  "GOARCH (host 0 (Inr (release ''9.6'')) ''amd64'' (Inr ''POWER11'') None) \<noteq> ''ppc64le'' \<and>
   fst (validatePowerVersion (host 0 (Inr (release ''9.6'')) ''amd64'' (Inr ''POWER11'') None) []) =
     Some (cross_mark @ '' unsupported architecture: amd64. IBM Power architecture (ppc64le) is required'') \<and>
   cross_mark @ '' unsupported architecture: amd64. IBM Power architecture (ppc64le) is required''
     \<in> set (fst (run_checks (host 0 (Inr (release ''9.6'')) ''amd64'' (Inr ''POWER11'') None) [])) \<and>
   GOARCH (host 0 (Inr (release ''9.6'')) ''ppc64le'' (Inr ''POWER10'') None) = ''ppc64le'' \<and>
   fs (host 0 (Inr (release ''9.6'')) ''ppc64le'' (Inr ''POWER10'') None) ''/proc/cpuinfo'' =
     Inr ''POWER10'' \<and>
   \<not> Contains ''POWER10'' ''POWER11'' \<and>
   fst (validatePowerVersion (host 0 (Inr (release ''9.6'')) ''ppc64le'' (Inr ''POWER10'') None) []) =
     Some (cross_mark @ '' unsupported IBM Power version: POWER11 is required'') \<and>
   cross_mark @ '' unsupported IBM Power version: POWER11 is required''
     \<in> set (fst (run_checks (host 0 (Inr (release ''9.6'')) ''ppc64le'' (Inr ''POWER10'') None) []))"
  using power_version_check
      [of "host 0 (Inr (release ''9.6'')) ''amd64'' (Inr ''POWER11'') None" "[]" "[]"]
    power_version_check
      [of "host 0 (Inr (release ''9.6'')) ''ppc64le'' (Inr ''POWER10'') None" "[]" "[]"]
  by (simp add: Contains_iff_sublist [symmetric] Contains_def)

subsection \<open>Reading and writing decimal numbers\<close>

lemma digit_char:
  assumes "n < 10"
  shows "is_digit (''0123456789'' ! n)" and "digit_val (''0123456789'' ! n) = int n"
proof -
  from assms have "n \<in> {0, 1, 2, 3, 4, 5, 6, 7, 8, 9}"
    by auto
  then show "is_digit (''0123456789'' ! n)" and "digit_val (''0123456789'' ! n) = int n"
    by (auto simp: is_digit_def digit_val_def)
qed

lemma digits10_digits: "c \<in> set (digits10 n) \<Longrightarrow> is_digit c"
proof (induction n rule: digits10.induct)
  case (1 n)
  show ?case
  proof (cases "n < 10")
    case True
    with "1.prems" show ?thesis
      by (simp add: digits10.simps [of n] digit_char(1))
  next
    case False
    with "1.prems" "1.IH" show ?thesis
      by (auto simp: digits10.simps [of n] digit_char(1))
  qed
qed

lemma digits10_not_Nil: "digits10 n \<noteq> []"
  by (simp add: digits10.simps [of n])

lemma digits10_value: "foldl (\<lambda>m c. m * 10 + digit_val c) 0 (digits10 n) = int n"
proof (induction n rule: digits10.induct)
  case (1 n)
  show ?case
  proof (cases "n < 10")
    case True
    then show ?thesis
      by (simp add: digits10.simps [of n] digit_char(2))
  next
    case False
    then have "foldl (\<lambda>m c. m * 10 + digit_val c) 0 (digits10 n) =
        int (n div 10) * 10 + int (n mod 10)"
      by (simp add: digits10.simps [of n] "1.IH" digit_char(2))
    then show ?thesis
      by (simp add: zdiv_int zmod_int)
  qed
qed

lemma foldl_digits_ge:
  "\<forall>c\<in>set cs. is_digit c \<Longrightarrow> 0 \<le> m \<Longrightarrow> m \<le> foldl (\<lambda>m c. m * 10 + digit_val c) m cs"
proof (induction cs arbitrary: m)
  case Nil
  show ?case by simp
next
  case (Cons c cs)
  have d: "0 \<le> digit_val c"
    using Cons.prems(1) by (simp add: is_digit_def digit_val_def)
  with Cons.prems have "m * 10 + digit_val c \<le> foldl (\<lambda>m c. m * 10 + digit_val c) (m * 10 + digit_val c) cs"
    by (intro Cons.IH) auto
  with d Cons.prems(2) show ?case
    by simp
qed

text \<open>
  On a string of digits the loop of \<open>ParseUint\<close> gives the decimal value when that fits
  into 64 bits, and the largest value with a range error otherwise.
\<close>

lemma ParseUint_loop_digits:
  assumes "\<forall>c\<in>set cs. is_digit c" and "0 \<le> n" and "n < 2 ^ 64"
  shows "ParseUint_loop n cs =
     (if foldl (\<lambda>m c. m * 10 + digit_val c) n cs < 2 ^ 64
      then (foldl (\<lambda>m c. m * 10 + digit_val c) n cs, None)
      else (2 ^ 64 - 1, Some ErrRange))"
  using assms
proof (induction cs arbitrary: n)
  case Nil
  then show ?case by simp
next
  case (Cons c cs)
  have digit: "is_digit c" and digits: "\<forall>c\<in>set cs. is_digit c"
    using Cons.prems(1) by simp_all
  have d: "0 \<le> digit_val c" "digit_val c < 10"
    using digit by (simp_all add: is_digit_def digit_val_def)
  have ge: "n * 10 + digit_val c \<le> foldl (\<lambda>m c. m * 10 + digit_val c) (n * 10 + digit_val c) cs"
    using digits d(1) Cons.prems(2) by (intro foldl_digits_ge) auto
  show ?case
  proof (cases "n * 10 + digit_val c < 2 ^ 64")
    case True
    then have small: "\<not> n \<ge> maxUint64 div 10 + 1"
      using d(1) by (simp add: maxUint64_def)
    have m: "(n * 10 + digit_val c) mod 2 ^ 64 = n * 10 + digit_val c"
      using True d(1) Cons.prems(2) by (intro mod_pos_pos_trivial) auto
    have "ParseUint_loop n (c # cs) = ParseUint_loop (n * 10 + digit_val c) cs"
      using digit small True d(1) m by (simp add: intSize_def Let_def)
    also have "\<dots> =
       (if foldl (\<lambda>m c. m * 10 + digit_val c) (n * 10 + digit_val c) cs < 2 ^ 64
        then (foldl (\<lambda>m c. m * 10 + digit_val c) (n * 10 + digit_val c) cs, None)
        else (2 ^ 64 - 1, Some ErrRange))"
      using digits True d(1) Cons.prems(2) by (intro Cons.IH) auto
    finally show ?thesis
      by simp
  next
    case False
    with ge have big: "\<not> foldl (\<lambda>m c. m * 10 + digit_val c) (n * 10 + digit_val c) cs < 2 ^ 64"
      by linarith
    have "ParseUint_loop n (c # cs) = (2 ^ 64 - 1, Some ErrRange)"
    proof (cases "n \<ge> maxUint64 div 10 + 1")
      case True
      with digit show ?thesis
        by (simp add: intSize_def)
    next
      case n: False
      have "(n * 10 + digit_val c) mod 2 ^ 64 = n * 10 + digit_val c - 2 ^ 64"
      proof -
        have "0 \<le> n * 10 + digit_val c - 2 ^ 64" "n * 10 + digit_val c - 2 ^ 64 < 2 ^ 64"
          using False n d by (simp_all add: maxUint64_def)
        then have "(n * 10 + digit_val c - 2 ^ 64) mod 2 ^ 64 = n * 10 + digit_val c - 2 ^ 64"
          by (intro mod_pos_pos_trivial)
        then show ?thesis
          by simp
      qed
      moreover have "n * 10 + digit_val c - 2 ^ 64 < n * 10"
        using d(2) by simp
      ultimately show ?thesis
        using digit n by (simp add: intSize_def Let_def)
    qed
    with big show ?thesis
      by simp
  qed
qed

lemma sign_not_digit: "is_digit c \<Longrightarrow> c \<noteq> CHR ''+'' \<and> c \<noteq> CHR ''-''"
  by (auto simp: is_digit_def)

text \<open>\<open>Atoi\<close> reads back what \<open>%d\<close> writes, up to the largest \<^verbatim>\<open>int\<close>.\<close>

lemma Atoi_digits10:
  "Atoi (digits10 n) =
     (if int n < 2 ^ 63 then (int n, None) else (2 ^ 63 - 1, Some ErrRange))"
proof -
  have digits: "\<forall>c\<in>set (digits10 n). is_digit c"
    by (simp add: digits10_digits)
  have "hd (digits10 n) \<in> set (digits10 n)"
    by (simp add: digits10_not_Nil)
  then have sign: "hd (digits10 n) \<noteq> CHR ''+''" "hd (digits10 n) \<noteq> CHR ''-''"
    using digits sign_not_digit by blast+
  have "ParseUint (digits10 n) =
      (if int n < 2 ^ 64 then (int n, None) else (2 ^ 64 - 1, Some ErrRange))"
    using ParseUint_loop_digits [OF digits, of 0]
    by (simp add: ParseUint_def digits10_not_Nil digits10_value)
  then show ?thesis
    using sign by (simp add: Atoi_def ParseInt_def digits10_not_Nil intSize_def)
qed

lemma Atoi_FormatInt: "fst (Atoi (FormatInt (int n))) = min (int n) (2 ^ 63 - 1)"
  by (simp add: FormatInt_def Atoi_digits10)

text \<open>
  A byte that is no digit among the first 19 is reached before the accumulator can
  overflow, and ends the loop with a syntax error.
\<close>

lemma ParseUint_loop_syntax:
  assumes "\<exists>c\<in>set (take (19 - k) cs). \<not> is_digit c" and "0 \<le> n" and "n < 10 ^ k"
  shows "ParseUint_loop n cs = (0, Some ErrSyntax)"
  using assms
proof (induction cs arbitrary: n k)
  case Nil
  then show ?case by simp
next
  case (Cons c cs)
  show ?case
  proof (cases "is_digit c")
    case False
    then show ?thesis by simp
  next
    case True
    from Cons.prems(1) have k: "k < 19"
      by (cases "19 - k") auto
    then have "19 - k = Suc (19 - Suc k)"
      by simp
    then have "take (19 - k) (c # cs) = c # take (19 - Suc k) cs"
      by (simp only: take_Suc_Cons)
    with True Cons.prems(1) have later: "\<exists>c\<in>set (take (19 - Suc k) cs). \<not> is_digit c"
      by auto
    then have "Suc k < 19"
      by (cases "19 - Suc k") auto
    then have "(10::int) ^ Suc k \<le> 10 ^ 18"
      by (intro power_increasing) auto
    have d: "0 \<le> digit_val c" "digit_val c < 10"
      using True by (simp_all add: is_digit_def digit_val_def)
    have next_lt: "n * 10 + digit_val c < 10 ^ Suc k"
      using Cons.prems(3) d(2) by simp
    with \<open>(10::int) ^ Suc k \<le> 10 ^ 18\<close> have bound: "n * 10 + digit_val c < 10 ^ 18"
      by linarith
    then have m: "(n * 10 + digit_val c) mod 2 ^ 64 = n * 10 + digit_val c"
      using d(1) Cons.prems(2) by (intro mod_pos_pos_trivial) auto
    have "ParseUint_loop n (c # cs) = ParseUint_loop (n * 10 + digit_val c) cs"
      using True bound d(1) m by (simp add: intSize_def maxUint64_def Let_def)
    also have "\<dots> = (0, Some ErrSyntax)"
      using later next_lt d(1) Cons.prems(2) by (intro Cons.IH [of "Suc k"]) auto
    finally show ?thesis .
  qed
qed

lemma Atoi_syntax:
  assumes "(if p \<noteq> [] \<and> (hd p = CHR ''+'' \<or> hd p = CHR ''-'') then tl p else p) = [] \<or>
     (\<exists>c\<in>set (take 19 (if p \<noteq> [] \<and> (hd p = CHR ''+'' \<or> hd p = CHR ''-'') then tl p else p)).
        \<not> is_digit c)"
  shows "Atoi p = (0, Some ErrSyntax)"
proof (cases "p = []")
  case True
  then show ?thesis
    by (simp add: Atoi_def ParseInt_def)
next
  case False
  define body where "body = (if hd p = CHR ''+'' \<or> hd p = CHR ''-'' then tl p else p)"
  with assms False have "body = [] \<or> (\<exists>c\<in>set (take (19 - 0) body). \<not> is_digit c)"
    by simp
  then have "ParseUint body = (0, Some ErrSyntax)"
    using ParseUint_loop_syntax [of 0 body 0] by (auto simp: ParseUint_def)
  then show ?thesis
    using False by (simp add: Atoi_def ParseInt_def body_def)
qed

subsection \<open>Taking the version out of a release file\<close>

lemma IndexByte_first: "b \<notin> set xs \<Longrightarrow> IndexByte (xs @ b # ys) b = int (length xs)"
  by (induction xs) (auto simp: Let_def)

lemma Split_no_sep: "sep \<notin> set xs \<Longrightarrow> Split xs sep = [xs]"
  by (induction xs) auto

lemma Split_first: "sep \<notin> set xs \<Longrightarrow> Split (xs @ sep # ys) sep = xs # Split ys sep"
  by (induction xs) auto

lemma isRHEL_release: "isRHEL (release v)"
proof -
  have \<open>prefix ''ID="rhel"'' (release v)\<close>
    by (simp add: release_def)
  then have \<open>sublist ''ID="rhel"'' (release v)\<close>
    by (rule prefix_imp_sublist)
  then show ?thesis
    by (simp add: isRHEL_def Contains_iff_sublist)
qed

lemma Index_release: "Index (release v) ''VERSION_ID='' = 10"
  by (simp add: release_def)

lemma dropWhile_none: "\<forall>x\<in>set xs. \<not> P x \<Longrightarrow> dropWhile P xs = xs"
  by (cases xs) auto

lemma version_of_release:
  assumes "CHR ''\<newline>'' \<notin> set v" and "CHR 0x22 \<notin> set v"
  shows "version_of (release v) 10 = v"
proof -
  define quoted where "quoted = CHR 0x22 # v @ [CHR 0x22]"
  have rest: "drop 21 (release v) = quoted @ CHR ''\<newline>'' # []"
    by (simp add: release_def quoted_def)
  have "CHR ''\<newline>'' \<notin> set quoted"
    using assms(1) by (simp add: quoted_def)
  then have "IndexByte (quoted @ CHR ''\<newline>'' # []) CHR ''\<newline>'' = int (length quoted)"
    by (rule IndexByte_first)
  then have line: "version_of (release v) 10 = Trim quoted [CHR 0x22]"
    by (simp add: version_of_def rest Let_def)
  have inner: "dropWhile (\<lambda>c. c = CHR 0x22) (rev v @ [CHR 0x22]) =
      (if v = [] then [] else rev v @ [CHR 0x22])"
    using assms(2) by (cases "rev v") auto
  have "dropWhile (\<lambda>c. c = CHR 0x22) v = v"
    using assms(2) by (intro dropWhile_none) auto
  with inner have "Trim quoted [CHR 0x22] = v"
    by (simp add: Trim_def quoted_def)
  with line show ?thesis
    by simp
qed

subsection \<open>The version check\<close>

lemma sublist_release: "sublist ''VERSION_ID='' (release v)"
  using Index_none_iff [of "release v" "''VERSION_ID=''"] by (simp add: Index_release)

lemma validateOS_release:
  assumes "fs e ''/etc/os-release'' = Inr (release v)"
    and "CHR ''\<newline>'' \<notin> set v" and "CHR 0x22 \<notin> set v"
  shows "fst (validateOS e t) =
     (if major_of v < 9 \<or> major_of v = 9 \<and> minor_of v < 6 then Some (unsupported_version v)
      else None)"
  using assms
  by (simp add: validateOS_result isRHEL_release Index_release version_of_release)

lemma digit_plain:
  "is_digit c \<Longrightarrow> c \<noteq> CHR ''.'' \<and> c \<noteq> CHR ''\<newline>'' \<and> c \<noteq> CHR 0x22"
  by (auto simp: is_digit_def)

lemma FormatInt_plain:
  "CHR ''.'' \<notin> set (FormatInt (int a))"
  "CHR ''\<newline>'' \<notin> set (FormatInt (int a))"
  "CHR 0x22 \<notin> set (FormatInt (int a))"
  using digits10_digits [of _ a] digit_plain by (auto simp: FormatInt_def)

lemma major_minor_decimal:
  "major_of (FormatInt (int a) @ CHR ''.'' # FormatInt (int b)) = min (int a) (2 ^ 63 - 1)"
  "minor_of (FormatInt (int a) @ CHR ''.'' # FormatInt (int b)) = min (int b) (2 ^ 63 - 1)"
  "major_of (FormatInt (int a)) = min (int a) (2 ^ 63 - 1)"
  "minor_of (FormatInt (int a)) = 0"
  by (simp_all add: major_of_def minor_of_def Split_first Split_no_sep FormatInt_plain
        Atoi_FormatInt)

lemmas parse_defs = Atoi_def ParseInt_def ParseUint_def is_digit_def digit_val_def intSize_def
  maxUint64_def Let_def

lemma versions:
  "major_of ''9.6'' = 9" "minor_of ''9.6'' = 6"
  "major_of ''10.0'' = 10" "minor_of ''10.0'' = 0"
  "major_of ''9.10'' = 9" "minor_of ''9.10'' = 10"
  "major_of ''9.5'' = 9" "minor_of ''9.5'' = 5"
  "major_of ''9'' = 9" "minor_of ''9'' = 0"
  "major_of ''9.0'' = 9" "minor_of ''9.0'' = 0"
  by (simp_all add: major_of_def minor_of_def parse_defs)

text \<open>
  Claim C3: for a readable release file of the supported distribution with a version
  field, the check passes exactly when the major number is above 9, or is 9 with a
  minor number of at least 6. The two numbers are the decimal values of the first two
  pieces of the version between dots, and the minor number is 0 when there is no second
  piece: a version written as the decimal numbers \<open>a\<close> and \<open>b\<close> with a dot between them
  passes exactly when \<open>9 < a\<close>, or \<open>a = 9\<close> and \<open>6 \<le> b\<close>. So 9.6, 10.0 and 9.10 pass, and 9.5
  and 9 fail.
\<close>

theorem version_check:
  assumes "fs e ''/etc/os-release'' = Inr osInfo"
    and "isRHEL osInfo"
    and "sublist ''VERSION_ID='' osInfo"
  shows
    "(fst (validateOS e t) = None \<longleftrightarrow>
        9 < major_of (version_of osInfo (Index osInfo ''VERSION_ID='')) \<or>
        major_of (version_of osInfo (Index osInfo ''VERSION_ID='')) = 9 \<and>
        6 \<le> minor_of (version_of osInfo (Index osInfo ''VERSION_ID=''))) \<and>
     (\<forall>a b. osInfo = release (FormatInt (int a) @ ''.'' @ FormatInt (int b)) \<longrightarrow>
        (fst (validateOS e t) = None \<longleftrightarrow> 9 < a \<or> a = 9 \<and> 6 \<le> b)) \<and>
     (\<forall>a. osInfo = release (FormatInt (int a)) \<longrightarrow>
        (fst (validateOS e t) = None \<longleftrightarrow> 9 < a)) \<and>
     (\<forall>a b. major_of (FormatInt (int a) @ ''.'' @ FormatInt (int b)) = min (int a) (2 ^ 63 - 1) \<and>
            minor_of (FormatInt (int a) @ ''.'' @ FormatInt (int b)) = min (int b) (2 ^ 63 - 1) \<and>
            major_of (FormatInt (int a)) = min (int a) (2 ^ 63 - 1) \<and>
            minor_of (FormatInt (int a)) = 0) \<and>
     fst (validateOS (host uid (Inr (release ''9.6'')) arch cpu rt) t) = None \<and>
     fst (validateOS (host uid (Inr (release ''10.0'')) arch cpu rt) t) = None \<and>
     fst (validateOS (host uid (Inr (release ''9.10'')) arch cpu rt) t) = None \<and>
     fst (validateOS (host uid (Inr (release ''9.5'')) arch cpu rt) t) =
       Some (cross_mark @ '' unsupported RHEL version: 9.5. Minimum required version is 9.6'') \<and>
     fst (validateOS (host uid (Inr (release ''9'')) arch cpu rt) t) =
       Some (cross_mark @ '' unsupported RHEL version: 9. Minimum required version is 9.6'')"
proof (intro conjI allI impI)
  show "fst (validateOS e t) = None \<longleftrightarrow>
        9 < major_of (version_of osInfo (Index osInfo ''VERSION_ID='')) \<or>
        major_of (version_of osInfo (Index osInfo ''VERSION_ID='')) = 9 \<and>
        6 \<le> minor_of (version_of osInfo (Index osInfo ''VERSION_ID=''))"
    using assms by (auto simp: validateOS_result Index_none_iff)
next
  fix a b
  assume "osInfo = release (FormatInt (int a) @ ''.'' @ FormatInt (int b))"
  with assms(1) have "fst (validateOS e t) =
     (if min (int a) (2 ^ 63 - 1) < 9 \<or> min (int a) (2 ^ 63 - 1) = 9 \<and> min (int b) (2 ^ 63 - 1) < 6
      then Some (unsupported_version (FormatInt (int a) @ ''.'' @ FormatInt (int b))) else None)"
    by (subst validateOS_release [of _ "FormatInt (int a) @ ''.'' @ FormatInt (int b)"])
       (simp_all add: FormatInt_plain major_minor_decimal)
  then show "fst (validateOS e t) = None \<longleftrightarrow> 9 < a \<or> a = 9 \<and> 6 \<le> b"
    by (auto simp: min_def split: if_splits)
next
  fix a
  assume "osInfo = release (FormatInt (int a))"
  with assms(1) have "fst (validateOS e t) =
     (if min (int a) (2 ^ 63 - 1) < 9 \<or> min (int a) (2 ^ 63 - 1) = 9 \<and> (0::int) < 6
      then Some (unsupported_version (FormatInt (int a))) else None)"
    by (subst validateOS_release [of _ "FormatInt (int a)"])
       (simp_all add: FormatInt_plain major_minor_decimal)
  then show "fst (validateOS e t) = None \<longleftrightarrow> 9 < a"
    by (auto simp: min_def split: if_splits)
next
  show "fst (validateOS (host uid (Inr (release ''9.6'')) arch cpu rt) t) = None"
    by (simp add: validateOS_release versions)
  show "fst (validateOS (host uid (Inr (release ''10.0'')) arch cpu rt) t) = None"
    by (simp add: validateOS_release versions)
  show "fst (validateOS (host uid (Inr (release ''9.10'')) arch cpu rt) t) = None"
    by (simp add: validateOS_release versions)
  show "fst (validateOS (host uid (Inr (release ''9.5'')) arch cpu rt) t) =
       Some (cross_mark @ '' unsupported RHEL version: 9.5. Minimum required version is 9.6'')"
    by (simp add: validateOS_release versions unsupported_version_def)
  show "fst (validateOS (host uid (Inr (release ''9'')) arch cpu rt) t) =
       Some (cross_mark @ '' unsupported RHEL version: 9. Minimum required version is 9.6'')"
    by (simp add: validateOS_release versions unsupported_version_def)
qed (simp_all add: major_minor_decimal)

theorem version_check_witness:
  "fs (host 0 (Inr (release ''9.10'')) ''ppc64le'' (Inr ''POWER11'') None) ''/etc/os-release'' =
     Inr (release ''9.10'') \<and>
   isRHEL (release ''9.10'') \<and>
   sublist ''VERSION_ID='' (release ''9.10'') \<and>
   major_of (version_of (release ''9.10'') (Index (release ''9.10'') ''VERSION_ID='')) = 9 \<and>
   minor_of (version_of (release ''9.10'') (Index (release ''9.10'') ''VERSION_ID='')) = 10 \<and>
   fst (validateOS (host 0 (Inr (release ''9.10'')) ''ppc64le'' (Inr ''POWER11'') None) []) = None \<and>
   fs (host 0 (Inr (release ''9.5'')) ''ppc64le'' (Inr ''POWER11'') None) ''/etc/os-release'' =
     Inr (release ''9.5'') \<and>
   isRHEL (release ''9.5'') \<and>
   sublist ''VERSION_ID='' (release ''9.5'') \<and>
   major_of (version_of (release ''9.5'') (Index (release ''9.5'') ''VERSION_ID='')) = 9 \<and>
   minor_of (version_of (release ''9.5'') (Index (release ''9.5'') ''VERSION_ID='')) = 5 \<and>
   fst (validateOS (host 0 (Inr (release ''9.5'')) ''ppc64le'' (Inr ''POWER11'') None) []) \<noteq> None"
  using version_check
      [of "host 0 (Inr (release ''9.10'')) ''ppc64le'' (Inr ''POWER11'') None" "release ''9.10''" "[]"]
    version_check
      [of "host 0 (Inr (release ''9.5'')) ''ppc64le'' (Inr ''POWER11'') None" "release ''9.5''" "[]"]
  by (simp add: isRHEL_release sublist_release Index_release version_of_release versions)

subsection \<open>Version components that do not parse\<close>

lemma ParseUint_digits10:
  "ParseUint (digits10 n) =
     (if int n < 2 ^ 64 then (int n, None) else (2 ^ 64 - 1, Some ErrRange))"
proof -
  have "\<forall>c\<in>set (digits10 n). is_digit c"
    by (simp add: digits10_digits)
  from ParseUint_loop_digits [OF this, of 0] show ?thesis
    by (simp add: ParseUint_def digits10_not_Nil digits10_value)
qed

lemma Atoi_minus_digits10:
  "Atoi (CHR ''-'' # digits10 n) =
     (if int n \<le> 2 ^ 63 then (- int n, None) else (- (2 ^ 63), Some ErrRange))"
  by (simp add: Atoi_def ParseInt_def ParseUint_digits10 intSize_def)

text \<open>
  What \<open>Atoi\<close> makes of a number written by \<open>%d\<close>: the number itself when it is an
  \<^verbatim>\<open>int\<close> of 64 bits, and otherwise the bound of \<^verbatim>\<open>int\<close> on the side of the number, with a
  range error.
\<close>

lemma Atoi_FormatInt_clamp:
  "Atoi (FormatInt i) =
     (if i < - (2 ^ 63) then (- (2 ^ 63), Some ErrRange)
      else if 2 ^ 63 \<le> i then (2 ^ 63 - 1, Some ErrRange)
      else (i, None))"
proof (cases "i < 0")
  case True
  then have "FormatInt i = CHR ''-'' # digits10 (nat (- i))"
    by (simp add: FormatInt_def)
  with True show ?thesis
    by (simp add: Atoi_minus_digits10)
next
  case False
  then have "FormatInt i = digits10 (nat i)"
    by (simp add: FormatInt_def)
  with False show ?thesis
    by (simp add: Atoi_digits10)
qed

lemma Atoi_error_value:
  "snd (Atoi p) = Some ErrSyntax \<Longrightarrow> fst (Atoi p) = 0"
  "snd (Atoi p) = Some ErrRange \<Longrightarrow>
     p \<noteq> [] \<and> fst (Atoi p) = (if hd p = CHR ''-'' then - (2 ^ 63) else 2 ^ 63 - 1)"
  by (auto simp: Atoi_def ParseInt_def Let_def intSize_def split: if_splits prod.splits)

text \<open>
  Claim C10, as amended: the errors of \<open>Atoi\<close> are dropped and the value it returns is
  used. On a syntax error that value is 0: with such a major part the check fails with
  the message for an unsupported version, which quotes the version, and not with the
  message that the version cannot be determined; such a minor part counts as 0. A part
  gives a syntax error when, after an optional sign, it is empty or has a byte that is
  no digit among its first 19. On a range error the value is not 0 but a bound of
  \<^verbatim>\<open>int\<close>, which has 64 bits on the command's target: the least \<^verbatim>\<open>int\<close> for a part that
  begins with the minus sign and the largest one for any other part. For a part that is
  a decimal number this is the bound on the side of the number, and a number within the
  bounds is read as itself.
\<close>

theorem syntax_errors_count_as_zero:
  assumes "fs e ''/etc/os-release'' = Inr osInfo"
    and "isRHEL osInfo"
    and "sublist ''VERSION_ID='' osInfo"
    and "version = version_of osInfo (Index osInfo ''VERSION_ID='')"
    and "parts = Split version CHR ''.''"
  shows
    "(snd (Atoi (parts ! 0)) = Some ErrSyntax \<longrightarrow>
        major_of version = 0 \<and>
        fst (validateOS e t) =
          Some (cross_mark @ '' unsupported RHEL version: '' @ version @
                ''. Minimum required version is 9.6'') \<and>
        fst (validateOS e t) \<noteq> Some ''unable to determine OS version'') \<and>
     (1 < length parts \<and> snd (Atoi (parts ! 1)) = Some ErrSyntax \<longrightarrow> minor_of version = 0) \<and>
     (\<forall>p. (if p \<noteq> [] \<and> (hd p = CHR ''+'' \<or> hd p = CHR ''-'') then tl p else p) = [] \<or>
          (\<exists>c\<in>set (take 19 (if p \<noteq> [] \<and> (hd p = CHR ''+'' \<or> hd p = CHR ''-'') then tl p else p)).
             \<not> is_digit c) \<longrightarrow>
          Atoi p = (0, Some ErrSyntax)) \<and>
     (\<forall>p. snd (Atoi p) = Some ErrRange \<longrightarrow>
          p \<noteq> [] \<and> fst (Atoi p) = (if hd p = CHR ''-'' then - (2 ^ 63) else 2 ^ 63 - 1)) \<and>
     (\<forall>i. Atoi (FormatInt i) =
          (if i < - (2 ^ 63) then (- (2 ^ 63), Some ErrRange)
           else if 2 ^ 63 \<le> i then (2 ^ 63 - 1, Some ErrRange)
           else (i, None)))"
proof (intro conjI allI impI)
  assume failed: "snd (Atoi (parts ! 0)) = Some ErrSyntax"
  then show major: "major_of version = 0"
    by (simp add: major_of_def assms(5) Atoi_error_value(1))
  have found: "Index osInfo ''VERSION_ID='' \<noteq> - 1"
    using assms(3) by (simp add: Index_none_iff)
  with major show result: "fst (validateOS e t) =
          Some (cross_mark @ '' unsupported RHEL version: '' @ version @
                ''. Minimum required version is 9.6'')"
    using assms(1,2) by (simp add: validateOS_result assms(4) [symmetric] unsupported_version_def)
  show "fst (validateOS e t) \<noteq> Some ''unable to determine OS version''"
    unfolding result by (simp add: cross_mark_def)
next
  assume "1 < length parts \<and> snd (Atoi (parts ! 1)) = Some ErrSyntax"
  then show "minor_of version = 0"
    by (simp add: minor_of_def assms(5) Atoi_error_value(1))
next
  fix p
  assume "(if p \<noteq> [] \<and> (hd p = CHR ''+'' \<or> hd p = CHR ''-'') then tl p else p) = [] \<or>
          (\<exists>c\<in>set (take 19 (if p \<noteq> [] \<and> (hd p = CHR ''+'' \<or> hd p = CHR ''-'') then tl p else p)).
             \<not> is_digit c)"
  then show "Atoi p = (0, Some ErrSyntax)"
    by (rule Atoi_syntax)
next
  fix p
  assume range: "snd (Atoi p) = Some ErrRange"
  then show "p \<noteq> []"
    using Atoi_error_value(2) by blast
  from range show "fst (Atoi p) = (if hd p = CHR ''-'' then - (2 ^ 63) else 2 ^ 63 - 1)"
    using Atoi_error_value(2) by blast
next
  fix i
  show "Atoi (FormatInt i) =
          (if i < - (2 ^ 63) then (- (2 ^ 63), Some ErrRange)
           else if 2 ^ 63 \<le> i then (2 ^ 63 - 1, Some ErrRange)
           else (i, None))"
    by (rule Atoi_FormatInt_clamp)
qed

lemma parse_samples:
  "Atoi ''abc'' = (0, Some ErrSyntax)"
  "Atoi ''x'' = (0, Some ErrSyntax)"
  "Atoi ''99999999999999999999'' = (9223372036854775807, Some ErrRange)"
  "Atoi ''99999999999999999999x'' = (9223372036854775807, Some ErrRange)"
  "Atoi ''-99999999999999999999'' = (- 9223372036854775808, Some ErrRange)"
  by (simp_all add: parse_defs)

theorem syntax_errors_count_as_zero_witness:
  "fs (host 0 (Inr (release ''abc'')) ''ppc64le'' (Inr ''POWER11'') None) ''/etc/os-release'' =
     Inr (release ''abc'') \<and>
   isRHEL (release ''abc'') \<and>
   sublist ''VERSION_ID='' (release ''abc'') \<and>
   ''abc'' = version_of (release ''abc'') (Index (release ''abc'') ''VERSION_ID='') \<and>
   [''abc''] = Split ''abc'' CHR ''.'' \<and>
   snd (Atoi ([''abc''] ! 0)) = Some ErrSyntax \<and>
   major_of ''abc'' = 0 \<and>
   fst (validateOS (host 0 (Inr (release ''abc'')) ''ppc64le'' (Inr ''POWER11'') None) []) =
     Some (cross_mark @ '' unsupported RHEL version: abc. Minimum required version is 9.6'') \<and>
   fs (host 0 (Inr (release ''9.x'')) ''ppc64le'' (Inr ''POWER11'') None) ''/etc/os-release'' =
     Inr (release ''9.x'') \<and>
   isRHEL (release ''9.x'') \<and>
   sublist ''VERSION_ID='' (release ''9.x'') \<and>
   ''9.x'' = version_of (release ''9.x'') (Index (release ''9.x'') ''VERSION_ID='') \<and>
   [''9'', ''x''] = Split ''9.x'' CHR ''.'' \<and>
   snd (Atoi ([''9'', ''x''] ! 1)) = Some ErrSyntax \<and>
   minor_of ''9.x'' = 0 \<and>
   (\<exists>c\<in>set (take 19 ''abc''). \<not> is_digit c) \<and>
   Atoi ''abc'' = (0, Some ErrSyntax) \<and>
   snd (Atoi ''99999999999999999999'') = Some ErrRange \<and>
   fst (Atoi ''99999999999999999999'') = 2 ^ 63 - 1 \<and>
   snd (Atoi ''-99999999999999999999'') = Some ErrRange \<and>
   fst (Atoi ''-99999999999999999999'') = - (2 ^ 63)"
proof -
  have abc: "''abc'' = version_of (release ''abc'') (Index (release ''abc'') ''VERSION_ID='')"
    and nine_x: "''9.x'' = version_of (release ''9.x'') (Index (release ''9.x'') ''VERSION_ID='')"
    by (simp_all add: Index_release version_of_release)
  have abc_parts: "[''abc''] = Split ''abc'' CHR ''.''"
    and nine_x_parts: "[''9'', ''x''] = Split ''9.x'' CHR ''.''"
    by simp_all
  have major: "snd (Atoi ([''abc''] ! 0)) = Some ErrSyntax"
    and minor: "1 < length [''9'', ''x''] \<and> snd (Atoi ([''9'', ''x''] ! 1)) = Some ErrSyntax"
    and range: "snd (Atoi ''99999999999999999999'') = Some ErrRange"
    and below: "snd (Atoi ''-99999999999999999999'') = Some ErrRange"
    by (simp_all add: parse_samples)
  have letter: "\<exists>c\<in>set (take 19 ''abc''). \<not> is_digit c"
    by (simp add: is_digit_def)
  have abc_file:
    "fs (host 0 (Inr (release ''abc'')) ''ppc64le'' (Inr ''POWER11'') None) ''/etc/os-release'' =
       Inr (release ''abc'')"
    and nine_x_file:
    "fs (host 0 (Inr (release ''9.x'')) ''ppc64le'' (Inr ''POWER11'') None) ''/etc/os-release'' =
       Inr (release ''9.x'')"
    by simp_all
  note first = syntax_errors_count_as_zero
      [of "host 0 (Inr (release ''abc'')) ''ppc64le'' (Inr ''POWER11'') None" "release ''abc''"
          "''abc''" "[''abc'']" "[]", OF abc_file isRHEL_release sublist_release abc abc_parts]
  note second = syntax_errors_count_as_zero
      [of "host 0 (Inr (release ''9.x'')) ''ppc64le'' (Inr ''POWER11'') None" "release ''9.x''"
          "''9.x''" "[''9'', ''x'']" "[]", OF nine_x_file isRHEL_release sublist_release nine_x
          nine_x_parts]
  have "major_of ''abc'' = 0 \<and>
      fst (validateOS (host 0 (Inr (release ''abc'')) ''ppc64le'' (Inr ''POWER11'') None) []) =
        Some (cross_mark @ '' unsupported RHEL version: abc. Minimum required version is 9.6'')"
    using first major by simp
  moreover have "minor_of ''9.x'' = 0"
    using second minor by simp
  moreover have "Atoi ''abc'' = (0, Some ErrSyntax)"
    using first letter by simp
  moreover have "fst (Atoi ''99999999999999999999'') = 2 ^ 63 - 1"
  proof -
    from first have "snd (Atoi ''99999999999999999999'') = Some ErrRange \<longrightarrow>
        fst (Atoi ''99999999999999999999'') =
          (if hd ''99999999999999999999'' = CHR ''-'' then - (2 ^ 63) else 2 ^ 63 - 1)"
      by blast
    with range show ?thesis
      by simp
  qed
  moreover have "fst (Atoi ''-99999999999999999999'') = - (2 ^ 63)"
  proof -
    from first have "snd (Atoi ''-99999999999999999999'') = Some ErrRange \<longrightarrow>
        fst (Atoi ''-99999999999999999999'') =
          (if hd ''-99999999999999999999'' = CHR ''-'' then - (2 ^ 63) else 2 ^ 63 - 1)"
      by blast
    with below show ?thesis
      by simp
  qed
  ultimately show ?thesis
    using abc nine_x abc_parts nine_x_parts major minor range below letter
    by (simp add: isRHEL_release sublist_release)
qed

text \<open>
  The claim as it was stated fails on a major part that is no decimal number and yet
  does not give 0: after twenty nines the accumulator has overflowed before the letter
  is read, \<open>Atoi\<close> reports a range error with the largest \<^verbatim>\<open>int\<close>, and the check passes.
\<close>

theorem parse_failure_counterexample:
  "snd (Atoi ''99999999999999999999x'') = Some ErrRange \<and>
   major_of ''99999999999999999999x'' = 9223372036854775807 \<and>
   fst (validateOS (host 0 (Inr (release ''99999999999999999999x'')) ''ppc64le''
          (Inr ''POWER11'') None) []) = None"
proof -
  have "major_of ''99999999999999999999x'' = 9223372036854775807"
    by (simp add: major_of_def parse_samples)
  then show ?thesis
    by (simp add: validateOS_release parse_samples)
qed

subsection \<open>The run as a whole\<close>

lemma validatePowerVersion_starts:
  "\<exists>rest. snd (validatePowerVersion e []) = Log Debug ''Validating IBM Power version...'' [] # rest"
  by (simp add: validatePowerVersion_def ReadFile_def Let_def split: sum.splits prod.splits)

lemma report_eq:
  "report errs t =
     (if errs = [] then None
      else Some (FormatInt (int (length errs)) @ '' validation check(s) failed''),
      t @ (if errs = [] then [Log Info (check_mark @ '' All validations passed'') []]
           else Log Error (cross_mark @ '' Validation failed with errors:'') [] #
                map (\<lambda>k. Log Error (''  '' @ FormatInt (int k + 1) @ ''. '' @ errs ! k) [])
                  [0..<length errs]))"
  by (simp add: report_def log_failures_eq)

lemma fst_run_checks: "fst (run_checks e u) = fst (run_checks e [])"
  by (simp add: run_checks_eq)

lemma checks_in_order:
  "subseq
     [Log Debug ''Validating operating system...'' [],
      Log Debug ''Validating RHN registration...'' [],
      Log Debug ''Validating LTC RPM repository...'' [],
      Call_Podman,
      Log Debug ''Validating IBM Power version...'' [],
      Log Debug ''Validating RHAIIS license...'' []]
     (snd (run_checks e []))"
proof -
  obtain os_rest where os: "snd (validateOS e []) =
      Log Debug ''Validating operating system...'' [] # os_rest"
    using validateOS_starts by blast
  obtain power_rest where power: "snd (validatePowerVersion e []) =
      Log Debug ''Validating IBM Power version...'' [] # power_rest"
    using validatePowerVersion_starts by blast
  show ?thesis
    unfolding run_checks_eq snd_conv os power validateRHNRegistration_def validateLTCRPMRepo_def
      validateRHAIISLicense_def append_Nil append_Cons
    apply (rule subseq_Cons2)
    apply (rule list_emb_append2)
    apply (rule subseq_Cons2)
    apply (rule subseq_Cons2)
    apply (rule subseq_Cons2)
    apply (rule list_emb_Cons)
    apply (rule subseq_Cons2)
    apply (rule list_emb_append2)
    apply (rule subseq_Cons2)
    apply (rule list_emb_Nil)
    done
qed

lemma FormatInt_small: "FormatInt 1 = ''1''" "FormatInt 2 = ''2''"
  by (simp_all add: FormatInt_def digits10.simps)

lemma power11_passes:
  "fst (validatePowerVersion (host uid rel ''ppc64le'' (Inr ''POWER11'') rt) t) = None"
  by (simp add: validatePowerVersion_result Contains_def)

lemma mixed_failures:
  "fst (run_checks (host uid (Inr (release ''9.0'')) ''ppc64le'' (Inr ''POWER11'') (Some perr)) u) =
     [cross_mark @ '' unsupported RHEL version: 9.0. Minimum required version is 9.6'',
      cross_mark @ '' podman validation failed: '' @ perr]"
  by (simp add: run_checks_eq map_filter_simps validateOS_release versions power11_passes
        validateRHNRegistration_def validateLTCRPMRepo_def validateRHAIISLicense_def
        unsupported_version_def)

text \<open>
  Claim C1: when the root check passes, each of the six later checks is run once and in
  the source's order, whatever the earlier ones returned: the list of failures is made of
  the errors of the six checks in that order, the trace holds the events of each of
  them, and the run ends with one line of the logger for each failure, numbered from 1,
  after a heading (or with the line of success when there is no failure). A host with
  version 9.0 and a failing container-runtime validator, on \<^verbatim>\<open>ppc64le\<close> with a POWER11
  processor, gives the two failures of the version and of the runtime, in this order,
  and an error as the result.
\<close>

theorem checks_run_and_failures_reported:
  assumes "euid e = 0"
  shows
    "fst (run_checks e u) =
       List.map_filter id
         [fst (validateOS e []),
          fst (validateRHNRegistration []),
          fst (validateLTCRPMRepo []),
          map_option (\<lambda>perr. cross_mark @ '' podman validation failed: '' @ perr) (podman e),
          fst (validatePowerVersion e []),
          fst (validateRHAIISLicense [])] \<and>
     snd (RunE e t) =
       t @ [Log Info ''Running bootstrap validation...'' [], Call_Geteuid,
            Log Debug (check_mark @ '' Current user is root.'') []] @
       snd (validateOS e []) @ snd (validateRHNRegistration []) @ snd (validateLTCRPMRepo []) @
       [Call_Podman,
        case podman e of
          Some perr \<Rightarrow> Log Debug (cross_mark @ '' Podman validation failed'') [Zap_Error perr]
        | None \<Rightarrow> Log Debug (check_mark @ '' Podman validation passed'') []] @
       snd (validatePowerVersion e []) @ snd (validateRHAIISLicense []) @
       (if fst (run_checks e u) = [] then [Log Info (check_mark @ '' All validations passed'') []]
        else Log Error (cross_mark @ '' Validation failed with errors:'') [] #
             map (\<lambda>k. Log Error (''  '' @ FormatInt (int k + 1) @ ''. '' @ fst (run_checks e u) ! k) [])
               [0..<length (fst (run_checks e u))]) \<and>
     subseq
       [Log Debug ''Validating operating system...'' [],
        Log Debug ''Validating RHN registration...'' [],
        Log Debug ''Validating LTC RPM repository...'' [],
        Call_Podman,
        Log Debug ''Validating IBM Power version...'' [],
        Log Debug ''Validating RHAIIS license...'' []]
       (snd (RunE e t)) \<and>
     (fst (RunE e t) = None \<longleftrightarrow> fst (run_checks e u) = []) \<and>
     fst (run_checks (host 0 (Inr (release ''9.0'')) ''ppc64le'' (Inr ''POWER11'') (Some perr)) u) =
       [cross_mark @ '' unsupported RHEL version: 9.0. Minimum required version is 9.6'',
        cross_mark @ '' podman validation failed: '' @ perr] \<and>
     fst (RunE (host 0 (Inr (release ''9.0'')) ''ppc64le'' (Inr ''POWER11'') (Some perr)) t) =
       Some ''2 validation check(s) failed''"
proof (intro conjI)
  show "fst (run_checks e u) =
       List.map_filter id
         [fst (validateOS e []),
          fst (validateRHNRegistration []),
          fst (validateLTCRPMRepo []),
          map_option (\<lambda>perr. cross_mark @ '' podman validation failed: '' @ perr) (podman e),
          fst (validatePowerVersion e []),
          fst (validateRHAIISLicense [])]"
    by (simp add: run_checks_eq)
next
  have "snd (RunE e t) =
      snd (report (fst (run_checks e u))
        (t @ [Log Info ''Running bootstrap validation...'' [], Call_Geteuid,
              Log Debug (check_mark @ '' Current user is root.'') []] @ snd (run_checks e [])))"
    using assms by (simp add: RunE_root fst_run_checks [of e u])
  then show "snd (RunE e t) =
       t @ [Log Info ''Running bootstrap validation...'' [], Call_Geteuid,
            Log Debug (check_mark @ '' Current user is root.'') []] @
       snd (validateOS e []) @ snd (validateRHNRegistration []) @ snd (validateLTCRPMRepo []) @
       [Call_Podman,
        case podman e of
          Some perr \<Rightarrow> Log Debug (cross_mark @ '' Podman validation failed'') [Zap_Error perr]
        | None \<Rightarrow> Log Debug (check_mark @ '' Podman validation passed'') []] @
       snd (validatePowerVersion e []) @ snd (validateRHAIISLicense []) @
       (if fst (run_checks e u) = [] then [Log Info (check_mark @ '' All validations passed'') []]
        else Log Error (cross_mark @ '' Validation failed with errors:'') [] #
             map (\<lambda>k. Log Error (''  '' @ FormatInt (int k + 1) @ ''. '' @ fst (run_checks e u) ! k) [])
               [0..<length (fst (run_checks e u))])"
    by (simp add: report_eq run_checks_eq [of e "[]"])
next
  obtain rest where "snd (RunE e t) =
      (t @ [Log Info ''Running bootstrap validation...'' [], Call_Geteuid,
            Log Debug (check_mark @ '' Current user is root.'') []]) @ snd (run_checks e []) @ rest"
    using assms by (simp add: RunE_root report_eq)
  then show "subseq
       [Log Debug ''Validating operating system...'' [],
        Log Debug ''Validating RHN registration...'' [],
        Log Debug ''Validating LTC RPM repository...'' [],
        Call_Podman,
        Log Debug ''Validating IBM Power version...'' [],
        Log Debug ''Validating RHAIIS license...'' []]
       (snd (RunE e t))"
    using checks_in_order [of e] by (simp only: list_emb_append2 list_emb_prefix)
next
  show "fst (RunE e t) = None \<longleftrightarrow> fst (run_checks e u) = []"
    using assms by (simp add: RunE_root report_eq fst_run_checks [of e u])
next
  show "fst (run_checks (host 0 (Inr (release ''9.0'')) ''ppc64le'' (Inr ''POWER11'') (Some perr)) u) =
       [cross_mark @ '' unsupported RHEL version: 9.0. Minimum required version is 9.6'',
        cross_mark @ '' podman validation failed: '' @ perr]"
    by (rule mixed_failures)
next
  show "fst (RunE (host 0 (Inr (release ''9.0'')) ''ppc64le'' (Inr ''POWER11'') (Some perr)) t) =
       Some ''2 validation check(s) failed''"
    by (simp add: RunE_root report_eq mixed_failures FormatInt_small)
qed

theorem checks_run_and_failures_reported_witness:
  "euid (host 0 (Inr (release ''9.0'')) ''ppc64le'' (Inr ''POWER11'') (Some ''podman not found'')) = 0 \<and>
   fst (run_checks
          (host 0 (Inr (release ''9.0'')) ''ppc64le'' (Inr ''POWER11'') (Some ''podman not found'')) []) =
     [cross_mark @ '' unsupported RHEL version: 9.0. Minimum required version is 9.6'',
      cross_mark @ '' podman validation failed: '' @ ''podman not found''] \<and>
   fst (RunE
          (host 0 (Inr (release ''9.0'')) ''ppc64le'' (Inr ''POWER11'') (Some ''podman not found'')) []) =
     Some ''2 validation check(s) failed'' \<and>
   subseq
     [Log Debug ''Validating operating system...'' [],
      Log Debug ''Validating RHN registration...'' [],
      Log Debug ''Validating LTC RPM repository...'' [],
      Call_Podman,
      Log Debug ''Validating IBM Power version...'' [],
      Log Debug ''Validating RHAIIS license...'' []]
     (snd (RunE
        (host 0 (Inr (release ''9.0'')) ''ppc64le'' (Inr ''POWER11'') (Some ''podman not found'')) []))"
proof -
  have root: "euid (host 0 (Inr (release ''9.0'')) ''ppc64le'' (Inr ''POWER11'')
      (Some ''podman not found'')) = 0"
    by simp
  note run = checks_run_and_failures_reported
      [where e = "host 0 (Inr (release ''9.0'')) ''ppc64le'' (Inr ''POWER11'') (Some ''podman not found'')"
         and u = "[]" and t = "[]" and perr = "''podman not found''", OF root]
  from run have "fst (run_checks
          (host 0 (Inr (release ''9.0'')) ''ppc64le'' (Inr ''POWER11'') (Some ''podman not found'')) []) =
     [cross_mark @ '' unsupported RHEL version: 9.0. Minimum required version is 9.6'',
      cross_mark @ '' podman validation failed: '' @ ''podman not found'']"
    by blast
  moreover from run have "fst (RunE
          (host 0 (Inr (release ''9.0'')) ''ppc64le'' (Inr ''POWER11'') (Some ''podman not found'')) []) =
     Some ''2 validation check(s) failed''"
    by blast
  moreover from run have "subseq
     [Log Debug ''Validating operating system...'' [],
      Log Debug ''Validating RHN registration...'' [],
      Log Debug ''Validating LTC RPM repository...'' [],
      Call_Podman,
      Log Debug ''Validating IBM Power version...'' [],
      Log Debug ''Validating RHAIIS license...'' []]
     (snd (RunE
        (host 0 (Inr (release ''9.0'')) ''ppc64le'' (Inr ''POWER11'') (Some ''podman not found'')) []))"
    by blast
  ultimately show ?thesis
    using root by blast
qed

subsection \<open>The result of the command\<close>

lemma no_failures_iff:
  "fst (run_checks e u) = [] \<longleftrightarrow>
     fst (validateOS e []) = None \<and> podman e = None \<and> fst (validatePowerVersion e []) = None"
  by (simp add: run_checks_eq map_filter_simps validateRHNRegistration_def validateLTCRPMRepo_def
        validateRHAIISLicense_def split: option.splits)

lemma one_failure:
  "fst (run_checks (host uid (Inr (release ''9.0'')) ''ppc64le'' (Inr ''POWER11'') None) u) =
     [cross_mark @ '' unsupported RHEL version: 9.0. Minimum required version is 9.6'']"
  "fst (run_checks (host uid (Inr (release ''9.5'')) ''ppc64le'' (Inr ''POWER11'') None) u) =
     [cross_mark @ '' unsupported RHEL version: 9.5. Minimum required version is 9.6'']"
  by (simp_all add: run_checks_eq map_filter_simps validateOS_release versions power11_passes
        validateRHNRegistration_def validateLTCRPMRepo_def validateRHAIISLicense_def
        unsupported_version_def)

text \<open>
  Claim C4, as amended: when at least one of the six checks fails, the result of the
  command is one error whose text is the number of failures followed by
  \<^verbatim>\<open>validation check(s) failed\<close>; the messages of the failures are not part of it, they
  are given to the logger at error level, in order and numbered from 1, after a heading.
  When no check fails the result is no error, and the last line of the logger says that
  all validations passed. No check fails exactly when the release check, the
  container-runtime validator and the processor check return no error.
\<close>

theorem aggregate_result:
  assumes "euid e = 0"
  shows
    "(fst (run_checks e u) \<noteq> [] \<longrightarrow>
        fst (RunE e t) =
          Some (FormatInt (int (length (fst (run_checks e u)))) @ '' validation check(s) failed'') \<and>
        snd (RunE e t) =
          t @ [Log Info ''Running bootstrap validation...'' [], Call_Geteuid,
               Log Debug (check_mark @ '' Current user is root.'') []] @
          snd (run_checks e []) @
          Log Error (cross_mark @ '' Validation failed with errors:'') [] #
          map (\<lambda>k. Log Error (''  '' @ FormatInt (int k + 1) @ ''. '' @ fst (run_checks e u) ! k) [])
            [0..<length (fst (run_checks e u))]) \<and>
     (fst (run_checks e u) = [] \<longrightarrow>
        fst (RunE e t) = None \<and>
        last (snd (RunE e t)) = Log Info (check_mark @ '' All validations passed'') []) \<and>
     (fst (run_checks e u) = [] \<longleftrightarrow>
        fst (validateOS e []) = None \<and> podman e = None \<and> fst (validatePowerVersion e []) = None)"
  using assms
  by (simp add: RunE_root report_eq fst_run_checks [of e u] no_failures_iff [of e "[]"])

theorem aggregate_result_witness:
  "euid (host 0 (Inr (release ''9.0'')) ''ppc64le'' (Inr ''POWER11'') None) = 0 \<and>
   fst (run_checks (host 0 (Inr (release ''9.0'')) ''ppc64le'' (Inr ''POWER11'') None) []) \<noteq> [] \<and>
   fst (RunE (host 0 (Inr (release ''9.0'')) ''ppc64le'' (Inr ''POWER11'') None) []) =
     Some ''1 validation check(s) failed'' \<and>
   euid (host 0 (Inr (release ''9.6'')) ''ppc64le'' (Inr ''POWER11'') None) = 0 \<and>
   fst (run_checks (host 0 (Inr (release ''9.6'')) ''ppc64le'' (Inr ''POWER11'') None) []) = [] \<and>
   fst (RunE (host 0 (Inr (release ''9.6'')) ''ppc64le'' (Inr ''POWER11'') None) []) = None"
proof -
  have passes: "fst (validateOS (host 0 (Inr (release ''9.6'')) ''ppc64le'' (Inr ''POWER11'') None) []) = None"
    by (simp add: validateOS_release versions)
  show ?thesis
    using aggregate_result
        [of "host 0 (Inr (release ''9.0'')) ''ppc64le'' (Inr ''POWER11'') None" "[]" "[]"]
      aggregate_result
        [of "host 0 (Inr (release ''9.6'')) ''ppc64le'' (Inr ''POWER11'') None" "[]" "[]"]
    by (simp add: one_failure FormatInt_small passes power11_passes)
qed

text \<open>
  The claim as it was stated fails: two hosts whose failures differ get the same result,
  which holds the number of failures and none of their messages.
\<close>

theorem aggregate_result_counterexample:
  "fst (run_checks (host 0 (Inr (release ''9.0'')) ''ppc64le'' (Inr ''POWER11'') None) []) =
     [cross_mark @ '' unsupported RHEL version: 9.0. Minimum required version is 9.6''] \<and>
   fst (run_checks (host 0 (Inr (release ''9.5'')) ''ppc64le'' (Inr ''POWER11'') None) []) =
     [cross_mark @ '' unsupported RHEL version: 9.5. Minimum required version is 9.6''] \<and>
   fst (RunE (host 0 (Inr (release ''9.0'')) ''ppc64le'' (Inr ''POWER11'') None) []) =
     Some ''1 validation check(s) failed'' \<and>
   fst (RunE (host 0 (Inr (release ''9.5'')) ''ppc64le'' (Inr ''POWER11'') None) []) =
     Some ''1 validation check(s) failed'' \<and>
   fst (run_checks (host 0 (Inr (release ''9.0'')) ''ppc64le'' (Inr ''POWER11'') None) []) \<noteq>
   fst (run_checks (host 0 (Inr (release ''9.5'')) ''ppc64le'' (Inr ''POWER11'') None) [])"
  by (simp add: RunE_root report_eq one_failure FormatInt_small)

subsection \<open>Files that cannot be read\<close>

lemma os_failure_recorded:
  "fst (validateOS e t) = Some err \<Longrightarrow> err \<in> set (fst (run_checks e u))"
  by (subst (asm) validateOS_frame) (simp add: run_checks_eq map_filter_simps)

lemma PathError_distinct:
  "PathError operation path cause \<noteq> unsupported_os"
  "PathError operation path cause \<noteq> unknown_version"
  "PathError operation path cause \<noteq> unsupported_version v"
  "PathError operation path cause \<noteq> unsupported_power"
  by (cases operation;
      simp add: PathError_def unsupported_os_def unknown_version_def unsupported_version_def
        unsupported_power_def cross_mark_def)+

text \<open>
  Claim C9, as amended: an unreadable release file makes the release check fail with the
  error of the read itself (the operation, the path and the cause), which is none of the
  messages of a mismatch. An unreadable CPU-info file on \<^verbatim>\<open>ppc64le\<close> makes the processor
  check fail with the message of a processor that is not POWER11, as a readable file
  without \<^verbatim>\<open>POWER11\<close> does. Both failures are recorded and the run goes on to the last
  check.
\<close>

theorem unreadable_files:
  "(fs e ''/etc/os-release'' = Inl (operation, cause) \<longrightarrow>
      fst (validateOS e t) = Some (path_op_name operation @ '' /etc/os-release: '' @ cause) \<and>
      path_op_name operation @ '' /etc/os-release: '' @ cause \<noteq> unsupported_os \<and>
      path_op_name operation @ '' /etc/os-release: '' @ cause \<noteq> unknown_version \<and>
      (\<forall>v. path_op_name operation @ '' /etc/os-release: '' @ cause \<noteq> unsupported_version v) \<and>
      path_op_name operation @ '' /etc/os-release: '' @ cause \<in> set (fst (run_checks e u))) \<and>
   (GOARCH e = ''ppc64le'' \<and> fs e ''/proc/cpuinfo'' = Inl (operation, cause) \<longrightarrow>
      fst (validatePowerVersion e t) =
        Some (cross_mark @ '' unsupported IBM Power version: POWER11 is required'') \<and>
      cross_mark @ '' unsupported IBM Power version: POWER11 is required''
        \<in> set (fst (run_checks e u))) \<and>
   (\<forall>data. GOARCH e = ''ppc64le'' \<and> fs e ''/proc/cpuinfo'' = Inr data \<and> \<not> sublist ''POWER11'' data \<longrightarrow>
      fst (validatePowerVersion e t) =
        Some (cross_mark @ '' unsupported IBM Power version: POWER11 is required'')) \<and>
   last (snd (run_checks e u)) = Log Debug ''Validating RHAIIS license...'' []"
proof (intro conjI allI impI)
  assume unreadable: "fs e ''/etc/os-release'' = Inl (operation, cause)"
  then show result: "fst (validateOS e t) =
      Some (path_op_name operation @ '' /etc/os-release: '' @ cause)"
    by (simp add: validateOS_result PathError_def)
  then show "path_op_name operation @ '' /etc/os-release: '' @ cause \<in> set (fst (run_checks e u))"
    by (rule os_failure_recorded)
  show "path_op_name operation @ '' /etc/os-release: '' @ cause \<noteq> unsupported_os"
    and "path_op_name operation @ '' /etc/os-release: '' @ cause \<noteq> unknown_version"
    and "path_op_name operation @ '' /etc/os-release: '' @ cause \<noteq> unsupported_version v" for v
    using PathError_distinct [of operation "''/etc/os-release''" cause]
    by (simp_all add: PathError_def)
next
  assume "GOARCH e = ''ppc64le'' \<and> fs e ''/proc/cpuinfo'' = Inl (operation, cause)"
  then show result: "fst (validatePowerVersion e t) =
      Some (cross_mark @ '' unsupported IBM Power version: POWER11 is required'')"
    by (simp add: validatePowerVersion_result unsupported_power_def)
  then show "cross_mark @ '' unsupported IBM Power version: POWER11 is required''
      \<in> set (fst (run_checks e u))"
    by (rule power_failure_recorded)
next
  fix data
  assume "GOARCH e = ''ppc64le'' \<and> fs e ''/proc/cpuinfo'' = Inr data \<and> \<not> sublist ''POWER11'' data"
  then show "fst (validatePowerVersion e t) =
      Some (cross_mark @ '' unsupported IBM Power version: POWER11 is required'')"
    by (simp add: validatePowerVersion_result unsupported_power_def Contains_iff_sublist)
next
  show "last (snd (run_checks e u)) = Log Debug ''Validating RHAIIS license...'' []"
    by (rule run_checks_last)
qed

theorem unreadable_files_witness:
  "fs (host 0 (Inl (OpOpen, ''permission denied'')) ''ppc64le''
        (Inl (OpOpen, ''permission denied'')) None) ''/etc/os-release'' =
     Inl (OpOpen, ''permission denied'') \<and>
   fst (validateOS (host 0 (Inl (OpOpen, ''permission denied'')) ''ppc64le''
        (Inl (OpOpen, ''permission denied'')) None) []) =
     Some ''open /etc/os-release: permission denied'' \<and>
   GOARCH (host 0 (Inl (OpOpen, ''permission denied'')) ''ppc64le''
        (Inl (OpOpen, ''permission denied'')) None) = ''ppc64le'' \<and>
   fs (host 0 (Inl (OpOpen, ''permission denied'')) ''ppc64le''
        (Inl (OpOpen, ''permission denied'')) None) ''/proc/cpuinfo'' =
     Inl (OpOpen, ''permission denied'') \<and>
   fst (validatePowerVersion (host 0 (Inl (OpOpen, ''permission denied'')) ''ppc64le''
        (Inl (OpOpen, ''permission denied'')) None) []) =
     Some (cross_mark @ '' unsupported IBM Power version: POWER11 is required'') \<and>
   fst (run_checks (host 0 (Inl (OpOpen, ''permission denied'')) ''ppc64le''
        (Inl (OpOpen, ''permission denied'')) None) []) =
     [''open /etc/os-release: permission denied'',
      cross_mark @ '' unsupported IBM Power version: POWER11 is required'']"
  using unreadable_files
      [of "host 0 (Inl (OpOpen, ''permission denied'')) ''ppc64le''
             (Inl (OpOpen, ''permission denied'')) None" OpOpen "''permission denied''" "[]" "[]"]
  by (simp add: run_checks_eq map_filter_simps validateRHNRegistration_def validateLTCRPMRepo_def
        validateRHAIISLicense_def)

text \<open>
  The claim as it was stated fails for the CPU-info file: when it cannot be read the
  check gives the message it gives for a readable file of another processor, and
  nothing in it tells of the read.
\<close>

theorem unreadable_cpuinfo_counterexample:
  "fst (validatePowerVersion
          (host 0 (Inr (release ''9.6'')) ''ppc64le'' (Inl (OpOpen, ''permission denied'')) None) []) =
     Some (cross_mark @ '' unsupported IBM Power version: POWER11 is required'') \<and>
   fst (validatePowerVersion
          (host 0 (Inr (release ''9.6'')) ''ppc64le'' (Inr ''POWER10'') None) []) =
     Some (cross_mark @ '' unsupported IBM Power version: POWER11 is required'')"
  by (simp add: validatePowerVersion_result unsupported_power_def Contains_def)

end
